theory Spec2Isabelle
  imports Main
begin

section \<open>The SQLite connector of parsons: a shallow embedding\<close>

text \<open>
  The theory follows \<^verbatim>\<open>parsons/databases/sqlite/sqlite.py\<close> and
  \<^verbatim>\<open>parsons/databases/sqlite/sqlite_create_table.py\<close>. Effects are explicit: every
  method takes the world (database files, open-connection counter, temp files, the trace of
  calls made on the \<^verbatim>\<open>sqlite3\<close> API, the log) and returns it updated; an exception is
  the \<open>Inl\<close> branch of a sum. Calls to \<^verbatim>\<open>print\<close> write to standard output only and
  are left out.
\<close>

subsection \<open>Python strings\<close>

text \<open>\<^verbatim>\<open>str.isspace\<close> for the code points below 256.\<close>

definition is_space :: "char \<Rightarrow> bool" where
  "is_space ch = (of_char ch \<in> {9, 10, 11, 12, 13, 28, 29, 30, 31, 32, 133, 160 :: nat})"

text \<open>\<^verbatim>\<open>s.strip()\<close>: whitespace removed at both ends.\<close>

definition py_strip :: "string \<Rightarrow> string" where
  "py_strip s = rev (dropWhile is_space (rev (dropWhile is_space s)))"

text \<open>
  \<^verbatim>\<open>s.split(sep)\<close> for a one-character separator: the pieces between the separators,
  empty pieces kept, always at least one piece.
\<close>

fun py_split :: "char \<Rightarrow> string \<Rightarrow> string list" where
  "py_split sep [] = [[]]"
| "py_split sep (ch # s) =
     (if ch = sep then [] # py_split sep s
      else (case py_split sep s of
              [] \<Rightarrow> [[ch]]
            | p # ps \<Rightarrow> (ch # p) # ps))"

text \<open>\<^verbatim>\<open>sep.join(xs)\<close>.\<close>

fun py_join :: "string \<Rightarrow> string list \<Rightarrow> string" where
  "py_join sep [] = []"
| "py_join sep [x] = x"
| "py_join sep (x # y # ys) = x @ sep @ py_join sep (y # ys)"

text \<open>\<^verbatim>\<open>str(n)\<close> for a natural number, as the f-strings of the log messages render counts.\<close>

definition digit_char :: "nat \<Rightarrow> char" where
  "digit_char d = char_of (48 + d)"

fun str_nat :: "nat \<Rightarrow> string" where
  "str_nat n = (if n < 10 then [digit_char n] else str_nat (n div 10) @ [digit_char (n mod 10)])"

declare str_nat.simps [simp del]

subsection \<open>Exceptions\<close>

text \<open>
  \<open>DatabaseError\<close> stands for \<^verbatim>\<open>sqlite3.Error\<close> and its subclasses, the only exceptions
  that \<^verbatim>\<open>connection()\<close> catches; \<open>OtherError\<close> for any other exception that comes out of
  the database driver.
\<close>

datatype error =
    DatabaseError string
  | ValueError string
  | AttributeError string
  | IndexError
  | OtherError string

fun is_sqlite3_Error :: "error \<Rightarrow> bool" where
  "is_sqlite3_Error (DatabaseError m) = True"
| "is_sqlite3_Error e = False"

subsection \<open>The tabular container\<close>

text \<open>
  Modelled from the spec: the tabular container \<^verbatim>\<open>parsons.Table\<close> is not among the
  sources; the spec lists what the connector consumes of it (\<^verbatim>\<open>columns\<close>,
  \<^verbatim>\<open>chunk(size)\<close>, \<^verbatim>\<open>num_rows\<close>, \<^verbatim>\<open>first\<close>, the data rows). A table is its
  header and its rows, each row a tuple of cell values of some type \<open>'v\<close>.
\<close>

record 'v table =
  columns :: "string list"
  data :: "'v list list"

definition num_rows :: "'v table \<Rightarrow> nat" where
  "num_rows t = length (data t)"

text \<open>
  Modelled from the spec: \<^verbatim>\<open>first\<close> is the first value of the first row, and Python's
  \<^verbatim>\<open>None\<close> (here \<open>None\<close>) when there is none.
\<close>

definition first :: "'v table \<Rightarrow> 'v option" where
  "first t = (case data t of
                [] \<Rightarrow> None
              | r # rs \<Rightarrow> (case r of [] \<Rightarrow> None | v # vs \<Rightarrow> Some v))"

text \<open>
  Modelled from the spec: \<^verbatim>\<open>chunk(size)\<close> splits the table into fixed-size row chunks
  ("with \<^verbatim>\<open>chunk_size=2\<close> on a 5-row table ... (2,2,1 rows)"), each with the header of
  the table. The spec says nothing about a chunk size of 0; the model returns no chunk
  there.
\<close>

function chunk_rows :: "nat \<Rightarrow> 'a list \<Rightarrow> 'a list list" where
  "chunk_rows n xs =
     (if n = 0 \<or> xs = [] then [] else take n xs # chunk_rows n (drop n xs))"
  by pat_completeness auto
termination
  by (relation "measure (\<lambda>(n, xs). length xs)") auto

declare chunk_rows.simps [simp del]

definition chunk :: "nat \<Rightarrow> 'v table \<Rightarrow> 'v table list" where
  "chunk n t = map (\<lambda>rs. t\<lparr>data := rs\<rparr>) (chunk_rows n (data t))"

text \<open>A table is rectangular when every row has one cell per column.\<close>

definition rectangular :: "'v table \<Rightarrow> bool" where
  "rectangular t = (\<forall>r \<in> set (data t). length r = length (columns t))"

subsection \<open>Python's own rendering of values\<close>

text \<open>
  The cells of a table are arbitrary Python objects. What the connector does with one is
  to call \<^verbatim>\<open>str\<close> on it (inside an f-string), \<^verbatim>\<open>repr\<close> on it (inside the
  \<^verbatim>\<open>str\<close> of a row tuple) and to compare it with a string. These three are taken as
  they are, together with the other collaborators that live outside the two source files:
  the database engine behind \<^verbatim>\<open>cursor.execute\<close>, and the column-name sanitiser, the
  type-widening function and the column accessor that \<^verbatim>\<open>create_statement\<close> delegates to.

  \<open>engine d s\<close> runs statement \<open>s\<close> on a database in state \<open>d\<close>: it raises, or returns
  the new state with the cursor's \<^verbatim>\<open>description\<close> (the column names, or \<open>None\<close>) and
  the rows the cursor will hand out.
\<close>

record ('db, 'v) env =
  engine :: "'db \<Rightarrow> string \<Rightarrow> error + ('db \<times> string list option \<times> 'v list list)"
  py_str :: "'v \<Rightarrow> string"
  py_repr :: "'v \<Rightarrow> string"
  py_eq_str :: "'v \<Rightarrow> string \<Rightarrow> bool"
  format_columns :: "string list \<Rightarrow> string list"
  detect_data_type :: "'v \<Rightarrow> string option \<Rightarrow> string option"
  column_data :: "'v table \<Rightarrow> string \<Rightarrow> 'v list"

text \<open>
  \<^verbatim>\<open>str(row)\<close> for a tuple: the \<^verbatim>\<open>repr\<close> of the items between parentheses, separated
  by a comma and a space, with the trailing comma of a 1-tuple.
\<close>

definition str_tuple :: "('v \<Rightarrow> string) \<Rightarrow> 'v list \<Rightarrow> string" where
  "str_tuple rp row =
     (case row of
        [] \<Rightarrow> ''()''
      | [v] \<Rightarrow> ''('' @ rp v @ '',)''
      | _ \<Rightarrow> ''('' @ py_join '', '' (map rp row) @ '')'')"

subsection \<open>\<^verbatim>\<open>SQLite._insert_statement\<close>\<close>

text \<open>
  \<^verbatim>\<open>row[0]\<close> raises \<^verbatim>\<open>IndexError\<close> on an empty row; the list comprehension stops at
  the first such row.
\<close>

fun single_values :: "('v \<Rightarrow> string) \<Rightarrow> 'v list list \<Rightarrow> error + string list" where
  "single_values st [] = Inr []"
| "single_values st (row # rest) =
     (case row of
        [] \<Rightarrow> Inl IndexError
      | v # vs \<Rightarrow> (case single_values st rest of
                    Inl e \<Rightarrow> Inl e
                  | Inr out \<Rightarrow> Inr ((''('' @ st v @ '')'') # out)))"

text \<open>The 18 spaces that open the second and the third line of the f-string.\<close>

definition indent18 :: string where
  "indent18 = ''                  ''"

definition insert_statement ::
  "('db, 'v) env \<Rightarrow> 'v table \<Rightarrow> string \<Rightarrow> error + string" where
  "insert_statement E tbl table_name =
     (case (if length (columns tbl) = 1
            then single_values (py_str E) (data tbl)
            else Inr (map (str_tuple (py_repr E)) (data tbl))) of
        Inl e \<Rightarrow> Inl e
      | Inr values \<Rightarrow>
          Inr (''INSERT INTO '' @ table_name @ [CHR 0x0A] @ indent18
               @ ''('' @ py_join '','' (columns tbl) @ '')'' @ [CHR 0x0A] @ indent18
               @ ''VALUES '' @ py_join '','' values @ '';''))"

subsection \<open>The world outside the connector\<close>

text \<open>
  A path is either a named file or the \<open>n\<close>-th file handed out by
  \<^verbatim>\<open>files.create_temp_file()\<close>.
\<close>

datatype path = Named string | TempFile nat

datatype level = DEBUG | INFO

text \<open>
  The calls made on the \<^verbatim>\<open>sqlite3\<close> API, in order; the number is the connection the
  call is made on (a cursor belongs to the connection it was opened on).
\<close>

datatype event =
    Connect nat path
  | Cursor nat
  | Execute nat string
  | Commit nat
  | Rollback nat
  | CursorClose nat
  | Close nat

text \<open>
  \<open>databases\<close> is the durable (committed) content of each database file;
  \<open>spill_files\<close> are the pickle files written by queries, each with its header record
  and its row records.
\<close>

record ('db, 'v) world =
  databases :: "path \<Rightarrow> 'db"
  next_conn :: nat
  temp_count :: nat
  spill_files :: "(path \<times> string list \<times> 'v list list) list"
  events :: "event list"
  logs :: "(level \<times> string) list"

definition emit :: "event \<Rightarrow> ('db, 'v) world \<Rightarrow> ('db, 'v) world" where
  "emit ev w = w\<lparr>events := events w @ [ev]\<rparr>"

definition log :: "level \<Rightarrow> string \<Rightarrow> ('db, 'v) world \<Rightarrow> ('db, 'v) world" where
  "log lv msg w = w\<lparr>logs := logs w @ [(lv, msg)]\<rparr>"

definition create_temp_file :: "('db, 'v) world \<Rightarrow> path \<times> ('db, 'v) world" where
  "create_temp_file w = (TempFile (temp_count w), w\<lparr>temp_count := Suc (temp_count w)\<rparr>)"

subsection \<open>Connections and cursors of \<^verbatim>\<open>sqlite3\<close>\<close>

text \<open>
  A connection has at most one open transaction: \<open>pending\<close> is the state of the database
  as this connection sees it while the transaction is open, \<open>None\<close> when there is none.
  A statement runs on what the connection sees; \<^verbatim>\<open>commit\<close> makes that durable,
  \<^verbatim>\<open>rollback\<close> and \<^verbatim>\<open>close\<close> drop it.
\<close>

record 'db conn =
  conn_id :: nat
  conn_file :: path
  pending :: "'db option"

record 'v cursor =
  description :: "string list option"
  rows :: "'v list list"

definition sqlite3_connect :: "path \<Rightarrow> ('db, 'v) world \<Rightarrow> 'db conn \<times> ('db, 'v) world" where
  "sqlite3_connect f w =
     (\<lparr>conn_id = next_conn w, conn_file = f, pending = None\<rparr>,
      emit (Connect (next_conn w) f) (w\<lparr>next_conn := Suc (next_conn w)\<rparr>))"

definition view :: "'db conn \<Rightarrow> ('db, 'v) world \<Rightarrow> 'db" where
  "view c w = (case pending c of None \<Rightarrow> databases w (conn_file c) | Some d \<Rightarrow> d)"

definition new_cursor :: "'db conn \<Rightarrow> ('db, 'v) world \<Rightarrow> 'v cursor \<times> ('db, 'v) world" where
  "new_cursor c w = (\<lparr>description = None, rows = []\<rparr>, emit (Cursor (conn_id c)) w)"

definition cursor_execute ::
  "('db, 'v) env \<Rightarrow> 'db conn \<Rightarrow> string \<Rightarrow> ('db, 'v) world
   \<Rightarrow> (error + 'v cursor) \<times> 'db conn \<times> ('db, 'v) world" where
  "cursor_execute E c s w =
     (case engine E (view c w) s of
        Inl e \<Rightarrow> (Inl e, c, emit (Execute (conn_id c) s) w)
      | Inr (d, desc, rs) \<Rightarrow>
          (Inr \<lparr>description = desc, rows = rs\<rparr>, c\<lparr>pending := Some d\<rparr>,
           emit (Execute (conn_id c) s) w))"

definition connection_commit :: "'db conn \<Rightarrow> ('db, 'v) world \<Rightarrow> 'db conn \<times> ('db, 'v) world" where
  "connection_commit c w =
     (c\<lparr>pending := None\<rparr>,
      emit (Commit (conn_id c)) (w\<lparr>databases := (databases w)(conn_file c := view c w)\<rparr>))"

definition connection_rollback :: "'db conn \<Rightarrow> ('db, 'v) world \<Rightarrow> 'db conn \<times> ('db, 'v) world" where
  "connection_rollback c w = (c\<lparr>pending := None\<rparr>, emit (Rollback (conn_id c)) w)"

definition connection_close :: "'db conn \<Rightarrow> ('db, 'v) world \<Rightarrow> ('db, 'v) world" where
  "connection_close c w = emit (Close (conn_id c)) w"

definition cursor_close :: "'db conn \<Rightarrow> ('db, 'v) world \<Rightarrow> ('db, 'v) world" where
  "cursor_close c w = emit (CursorClose (conn_id c)) w"

definition fetchmany :: "nat \<Rightarrow> 'v cursor \<Rightarrow> 'v list list \<times> 'v cursor" where
  "fetchmany n cur = (take n (rows cur), cur\<lparr>rows := drop n (rows cur)\<rparr>)"

subsection \<open>\<^verbatim>\<open>SQLite.connection\<close>, \<^verbatim>\<open>SQLite.query_with_connection\<close>, \<^verbatim>\<open>SQLite.query\<close>\<close>

record SQLite =
  file' :: path

text \<open>
  The context manager, applied to the body of its \<^verbatim>\<open>with\<close> block. A generator-based
  context manager that catches the exception thrown into it and then runs to its end
  makes the \<^verbatim>\<open>with\<close> statement swallow that exception: the block is left as if it had
  ended, without a value (\<open>Inr None\<close>). The \<^verbatim>\<open>finally\<close> clause closes the handle on
  every path.
\<close>

definition connection ::
  "SQLite \<Rightarrow> ('db conn \<Rightarrow> ('db, 'v) world \<Rightarrow> (error + 'a) \<times> 'db conn \<times> ('db, 'v) world)
   \<Rightarrow> ('db, 'v) world \<Rightarrow> (error + 'a option) \<times> ('db, 'v) world" where
  "connection self body w =
     (case sqlite3_connect (file' self) w of
        (c, w1) \<Rightarrow>
          (case body c w1 of
             (Inr a, c2, w2) \<Rightarrow> (Inr (Some a), connection_close c2 w2)
           | (Inl e, c2, w2) \<Rightarrow>
               (if is_sqlite3_Error e
                then (case connection_rollback c2 w2 of
                        (c3, w3) \<Rightarrow> (Inr None, connection_close c3 w3))
                else (Inl e, connection_close c2 w2))))"

definition QUERY_BATCH_SIZE :: nat where
  "QUERY_BATCH_SIZE = 100000"

text \<open>The \<^verbatim>\<open>for\<close> loop over the fragments of \<^verbatim>\<open>sql.strip().split(";")\<close>.\<close>

fun run_statements ::
  "('db, 'v) env \<Rightarrow> string \<Rightarrow> string list \<Rightarrow> 'db conn \<Rightarrow> 'v cursor \<Rightarrow> ('db, 'v) world
   \<Rightarrow> (error + 'v cursor) \<times> 'db conn \<times> ('db, 'v) world" where
  "run_statements E sql [] c cur w = (Inr cur, c, w)"
| "run_statements E sql (s # ss) c cur w =
     (if length s \<noteq> 0
      then (case cursor_execute E c s (log DEBUG (''SQL Query: '' @ sql) w) of
              (Inl e, c1, w1) \<Rightarrow> (Inl e, c1, w1)
            | (Inr cur1, c1, w1) \<Rightarrow>
                (case connection_commit c1 w1 of
                   (c2, w2) \<Rightarrow> run_statements E sql ss c2 cur1 w2))
      else run_statements E sql ss c cur w)"

text \<open>
  The \<^verbatim>\<open>while True\<close> loop that fetches batches until one is empty; \<open>written\<close> are the
  rows pickled so far.
\<close>

function fetch_loop ::
  "'v cursor \<Rightarrow> 'v list list \<Rightarrow> ('db, 'v) world \<Rightarrow> 'v list list \<times> 'v cursor \<times> ('db, 'v) world" where
  "fetch_loop cur written w =
     (case fetchmany QUERY_BATCH_SIZE cur of
        (batch, cur1) \<Rightarrow>
          (if length batch = 0 then (written, cur1, w)
           else fetch_loop cur1 (written @ batch)
                  (log DEBUG (''Fetched '' @ str_nat (length batch) @ '' rows.'') w)))"
  by pat_completeness auto
termination
  by (relation "measure (\<lambda>(cur, written, w). length (rows cur))")
     (auto simp: fetchmany_def QUERY_BATCH_SIZE_def)

declare fetch_loop.simps [simp del]

text \<open>
  The arguments \<^verbatim>\<open>parameters\<close> and \<^verbatim>\<open>commit\<close> are accepted and never read.
\<close>

definition query_with_connection ::
  "('db, 'v) env \<Rightarrow> string \<Rightarrow> 'db conn \<Rightarrow> 'v list option \<Rightarrow> bool \<Rightarrow> ('db, 'v) world
   \<Rightarrow> (error + 'v table option) \<times> 'db conn \<times> ('db, 'v) world" where
  "query_with_connection E sql c parameters commit w =
     (case new_cursor c w of
        (cur0, w0) \<Rightarrow>
          (case run_statements E sql (py_split (CHR '';'') (py_strip sql)) c cur0 w0 of
             (Inl e, c1, w1) \<Rightarrow> (Inl e, c1, cursor_close c w1)
           | (Inr cur, c1, w1) \<Rightarrow>
               (case (case description cur of None \<Rightarrow> [] | Some d \<Rightarrow> d) of
                  [] \<Rightarrow> (Inr None, c1, cursor_close c (log DEBUG ''Query returned 0 rows'' w1))
                | h # hs \<Rightarrow>
                    (case create_temp_file w1 of
                       (temp_file, w2) \<Rightarrow>
                         (case fetch_loop cur [] w2 of
                            (written, cur2, w3) \<Rightarrow>
                              (let w4 = w3\<lparr>spill_files :=
                                            spill_files w3 @ [(temp_file, h # hs, written)]\<rparr>;
                                   final_tbl = \<lparr>columns = h # hs, data = written\<rparr>;
                                   w5 = log DEBUG (''Query returned ''
                                          @ str_nat (num_rows final_tbl) @ '' rows.'') w4
                               in (Inr (Some final_tbl), c1, cursor_close c w5)))))))"

text \<open>
  \<^verbatim>\<open>query\<close> returns from inside the \<^verbatim>\<open>with\<close> block; when the block is left through a
  swallowed exception, the method runs off its end and returns \<^verbatim>\<open>None\<close>.
\<close>

definition query ::
  "('db, 'v) env \<Rightarrow> SQLite \<Rightarrow> string \<Rightarrow> 'v list option \<Rightarrow> ('db, 'v) world
   \<Rightarrow> (error + 'v table option) \<times> ('db, 'v) world" where
  "query E self sql parameters w =
     (case connection self (\<lambda>c. query_with_connection E sql c parameters True) w of
        (Inl e, w1) \<Rightarrow> (Inl e, w1)
      | (Inr None, w1) \<Rightarrow> (Inr None, w1)
      | (Inr (Some r), w1) \<Rightarrow> (Inr r, w1))"

subsection \<open>\<^verbatim>\<open>SQLite.__init__\<close>\<close>

text \<open>
  Python evaluates the default value of a parameter once, when the \<^verbatim>\<open>def\<close> statement
  runs, and keeps it in the function object. \<open>define_SQLite\<close> is the execution of the
  class body, \<open>SQLite_init\<close> a later call of the constructor, with \<open>None\<close> for an
  omitted \<^verbatim>\<open>file\<close> argument.
\<close>

record SQLite_class =
  default_file :: path

definition define_SQLite :: "('db, 'v) world \<Rightarrow> SQLite_class \<times> ('db, 'v) world" where
  "define_SQLite w = (case create_temp_file w of (p, w1) \<Rightarrow> (\<lparr>default_file = p\<rparr>, w1))"

definition SQLite_init ::
  "SQLite_class \<Rightarrow> path option \<Rightarrow> ('db, 'v) world \<Rightarrow> SQLite \<times> ('db, 'v) world" where
  "SQLite_init cls file_arg w =
     (\<lparr>file' = (case file_arg of None \<Rightarrow> default_file cls | Some f \<Rightarrow> f)\<rparr>, w)"

subsection \<open>\<^verbatim>\<open>SQLite.table_exists\<close> and \<^verbatim>\<open>SQLite._create_table_precheck\<close>\<close>

definition table_exists_sql :: "string \<Rightarrow> string" where
  "table_exists_sql table_name =
     ''SELECT name FROM sqlite_master WHERE type='table' AND name LIKE ''
     @ [CHR 0x27] @ table_name @ [CHR 0x27]"

text \<open>
  When \<^verbatim>\<open>query\<close> returns \<^verbatim>\<open>None\<close>, reading \<^verbatim>\<open>.first\<close> of it raises
  \<^verbatim>\<open>AttributeError\<close>. \<^verbatim>\<open>None == table_name\<close> is false.
\<close>

definition table_exists ::
  "('db, 'v) env \<Rightarrow> SQLite \<Rightarrow> string \<Rightarrow> ('db, 'v) world \<Rightarrow> (error + bool) \<times> ('db, 'v) world" where
  "table_exists E self table_name w =
     (case query E self (table_exists_sql table_name) None w of
        (Inl e, w1) \<Rightarrow> (Inl e, w1)
      | (Inr None, w1) \<Rightarrow> (Inl (AttributeError ''first''), w1)
      | (Inr (Some t), w1) \<Rightarrow>
          (Inr (case first t of None \<Rightarrow> False | Some v \<Rightarrow> py_eq_str E v table_name), w1))"

text \<open>
  The result is \<open>Some True\<close> for \<^verbatim>\<open>return True\<close> and \<open>None\<close> where the method runs
  off its end (the table exists and \<^verbatim>\<open>if_exists\<close> is \<^verbatim>\<open>"append"\<close>).
\<close>

definition create_table_precheck ::
  "('db, 'v) env \<Rightarrow> SQLite \<Rightarrow> 'db conn \<Rightarrow> string \<Rightarrow> string \<Rightarrow> ('db, 'v) world
   \<Rightarrow> (error + bool option) \<times> 'db conn \<times> ('db, 'v) world" where
  "create_table_precheck E self c table_name if_exists w =
     (if if_exists \<notin> set [''fail'', ''append'', ''drop'']
      then (Inl (ValueError ''Invalid value for `if_exists` argument''), c, w)
      else
        (case table_exists E self table_name w of
           (Inl e, w1) \<Rightarrow> (Inl e, c, w1)
         | (Inr True, w1) \<Rightarrow>
             (if if_exists = ''fail''
              then (Inl (ValueError ''Table already exists.''), c, w1)
              else if if_exists = ''drop''
              then (case query_with_connection E (''DROP TABLE '' @ table_name) c None True w1 of
                      (Inl e, c2, w2) \<Rightarrow> (Inl e, c2, w2)
                    | (Inr r, c2, w2) \<Rightarrow>
                        (Inr (Some True), c2, log INFO (table_name @ '' dropped.'') w2))
              else (Inr None, c, w1))
         | (Inr False, w1) \<Rightarrow> (Inr (Some True), c, w1)))"

subsection \<open>\<^verbatim>\<open>SQLiteCreateTable\<close>\<close>

text \<open>
  \<^verbatim>\<open>data_type\<close> and \<^verbatim>\<open>columns_convert\<close> pass their arguments on to the inherited
  \<^verbatim>\<open>detect_data_type\<close> and \<^verbatim>\<open>format_columns\<close> (the latter with the prefix
  \<^verbatim>\<open>"col_"\<close>).
\<close>

definition data_type :: "('db, 'v) env \<Rightarrow> 'v \<Rightarrow> string option \<Rightarrow> string option" where
  "data_type E val current_type = detect_data_type E val current_type"

definition columns_convert :: "('db, 'v) env \<Rightarrow> string list \<Rightarrow> string list" where
  "columns_convert E cols = format_columns E cols"

definition evaluate_column :: "('db, 'v) env \<Rightarrow> 'v list \<Rightarrow> string option" where
  "evaluate_column E column_rows = fold (\<lambda>row col_type. data_type E row col_type) column_rows None"

definition evaluate_table :: "('db, 'v) env \<Rightarrow> 'v table \<Rightarrow> (string \<times> string option) list" where
  "evaluate_table E tbl =
     map (\<lambda>col. (col, evaluate_column E (column_data E tbl col))) (columns tbl)"

text \<open>What an f-string makes of a column type: \<^verbatim>\<open>None\<close> is rendered as its name.\<close>

definition str_type :: "string option \<Rightarrow> string" where
  "str_type ty = (case ty of None \<Rightarrow> ''None'' | Some s \<Rightarrow> s)"

text \<open>
  \<^verbatim>\<open>create_statement\<close> replaces the header of the caller's table by the converted column
  names; the table is returned with the statement.
\<close>

definition create_statement ::
  "('db, 'v) env \<Rightarrow> 'v table \<Rightarrow> string \<Rightarrow> string \<times> 'v table" where
  "create_statement E tbl table_name =
     (let tbl1 = tbl\<lparr>columns := columns_convert E (columns tbl)\<rparr>;
          table_map = evaluate_table E tbl1;
          column_syntax = map (\<lambda>(name, ty). name @ '' '' @ str_type ty @ '' '' @ [CHR 0x0A]) table_map
      in (''CREATE TABLE '' @ table_name @ '' ( '' @ [CHR 0x0A] @ '' ''
          @ py_join '','' column_syntax @ '');'', tbl1))"

subsection \<open>\<^verbatim>\<open>SQLite.copy\<close>\<close>

text \<open>The first half of the \<^verbatim>\<open>with\<close> block: the precheck and the creation of the table.\<close>

definition copy_create ::
  "('db, 'v) env \<Rightarrow> SQLite \<Rightarrow> 'v table \<Rightarrow> string \<Rightarrow> string \<Rightarrow> 'db conn \<Rightarrow> ('db, 'v) world
   \<Rightarrow> (error + 'v table) \<times> 'db conn \<times> ('db, 'v) world" where
  "copy_create E self tbl table_name if_exists c w =
     (case create_table_precheck E self c table_name if_exists w of
        (Inl e, c1, w1) \<Rightarrow> (Inl e, c1, w1)
      | (Inr needed, c1, w1) \<Rightarrow>
          (if needed = Some True
           then (case create_statement E tbl table_name of
                   (sql, tbl1) \<Rightarrow>
                     (case query_with_connection E sql c1 None True w1 of
                        (Inl e, c2, w2) \<Rightarrow> (Inl e, c2, w2)
                      | (Inr r, c2, w2) \<Rightarrow>
                          (Inr tbl1, c2, log INFO (''Table '' @ table_name @ '' created.'') w2)))
           else (Inr tbl, c1, w1)))"

text \<open>The second half: the \<^verbatim>\<open>for\<close> loop over the chunks.\<close>

fun copy_inserts ::
  "('db, 'v) env \<Rightarrow> string \<Rightarrow> 'v table list \<Rightarrow> 'db conn \<Rightarrow> ('db, 'v) world
   \<Rightarrow> (error + unit) \<times> 'db conn \<times> ('db, 'v) world" where
  "copy_inserts E table_name [] c w = (Inr (), c, w)"
| "copy_inserts E table_name (t # ts) c w =
     (case insert_statement E t table_name of
        Inl e \<Rightarrow> (Inl e, c, w)
      | Inr sql \<Rightarrow>
          (case query_with_connection E sql c None True w of
             (Inl e, c1, w1) \<Rightarrow> (Inl e, c1, w1)
           | (Inr r, c1, w1) \<Rightarrow> copy_inserts E table_name ts c1 w1))"

definition copy_body ::
  "('db, 'v) env \<Rightarrow> SQLite \<Rightarrow> 'v table \<Rightarrow> string \<Rightarrow> string \<Rightarrow> nat \<Rightarrow> 'db conn \<Rightarrow> ('db, 'v) world
   \<Rightarrow> (error + unit) \<times> 'db conn \<times> ('db, 'v) world" where
  "copy_body E self tbl table_name if_exists chunk_size c w =
     (case copy_create E self tbl table_name if_exists c w of
        (Inl e, c1, w1) \<Rightarrow> (Inl e, c1, w1)
      | (Inr tbl1, c1, w1) \<Rightarrow> copy_inserts E table_name (chunk chunk_size tbl1) c1 w1)"

text \<open>\<^verbatim>\<open>copy\<close> returns \<^verbatim>\<open>None\<close> on every path that does not raise.\<close>

definition copy ::
  "('db, 'v) env \<Rightarrow> SQLite \<Rightarrow> 'v table \<Rightarrow> string \<Rightarrow> string \<Rightarrow> nat \<Rightarrow> ('db, 'v) world
   \<Rightarrow> (error + unit) \<times> ('db, 'v) world" where
  "copy E self tbl table_name if_exists chunk_size w =
     (if num_rows tbl = 0
      then (Inr (), log INFO ''Parsons table is empty. Table will not be created.'' w)
      else (case connection self (copy_body E self tbl table_name if_exists chunk_size) w of
              (Inl e, w1) \<Rightarrow> (Inl e, w1)
            | (Inr r, w1) \<Rightarrow> (Inr (), w1)))"

subsection \<open>Reference notions used in the statements\<close>

text \<open>The fragments of a query string that are executed: the non-empty ones, in order.\<close>

definition statements :: "string \<Rightarrow> string list" where
  "statements sql = filter (\<lambda>s. length s \<noteq> 0) (py_split (CHR '';'') (py_strip sql))"

text \<open>
  Running statements one after the other, each durable as soon as it has run, up to the
  first one that raises: the error that stopped the run, if any, and the database reached.
\<close>

fun autocommit :: "('db, 'v) env \<Rightarrow> 'db \<Rightarrow> string list \<Rightarrow> error option \<times> 'db" where
  "autocommit E d [] = (None, d)"
| "autocommit E d (s # ss) =
     (case engine E d s of
        Inl e \<Rightarrow> (Some e, d)
      | Inr (d1, desc, rs) \<Rightarrow> autocommit E d1 ss)"

text \<open>
  The calls that one query makes on connection \<open>k\<close> when none of its statements raises.
\<close>

definition query_events :: "nat \<Rightarrow> string \<Rightarrow> event list" where
  "query_events k sql =
     Cursor k # concat (map (\<lambda>s. [Execute k s, Commit k]) (statements sql)) @ [CursorClose k]"

text \<open>The statements of a trace, each with the connection it ran on.\<close>

fun executed :: "event list \<Rightarrow> (nat \<times> string) list" where
  "executed [] = []"
| "executed (Execute k s # evs) = (k, s) # executed evs"
| "executed (ev # evs) = executed evs"

subsection \<open>A scripted database engine for concrete runs\<close>

text \<open>
  A stand-in for the database engine that answers a statement as a script says, and any
  statement that the script does not list with an empty result; its database is the
  journal of the statements that ran. The cells are strings: \<^verbatim>\<open>str\<close> is the string
  itself and \<^verbatim>\<open>repr\<close> puts it between single quotes (as Python does for a string
  without quotes, backslashes or control characters).
\<close>

datatype 'v response = Raises error | Returns "string list option" "'v list list"

fun scripted :: "(string \<times> 'v response) list \<Rightarrow> string \<Rightarrow> 'v response" where
  "scripted [] s = Returns None []"
| "scripted ((k, r) # script) s = (if k = s then r else scripted script s)"

definition scripted_engine ::
  "(string \<times> 'v response) list \<Rightarrow> string list \<Rightarrow> string
   \<Rightarrow> error + (string list \<times> string list option \<times> 'v list list)" where
  "scripted_engine script d s =
     (case scripted script s of
        Raises e \<Rightarrow> Inl e
      | Returns desc rs \<Rightarrow> Inr (d @ [s], desc, rs))"

definition cells_of :: "string table \<Rightarrow> string \<Rightarrow> string list" where
  "cells_of t col =
     concat (map (\<lambda>r. take 1 (drop (length (takeWhile (\<lambda>c. c \<noteq> col) (columns t))) r)) (data t))"

definition scripted_env :: "(string \<times> string response) list \<Rightarrow> (string list, string) env" where
  "scripted_env script =
     \<lparr>engine = scripted_engine script,
      py_str = (\<lambda>v. v),
      py_repr = (\<lambda>v. [CHR 0x27] @ v @ [CHR 0x27]),
      py_eq_str = (\<lambda>v s. v = s),
      format_columns = (\<lambda>cols. cols),
      detect_data_type = (\<lambda>v ty. Some ''text''),
      column_data = cells_of\<rparr>"

definition empty_world :: "(string list, string) world" where
  "empty_world =
     \<lparr>databases = (\<lambda>f. []), next_conn = 0, temp_count = 0, spill_files = [],
      events = [], logs = []\<rparr>"

definition db :: SQLite where
  "db = \<lparr>file' = Named ''parsons.db''\<rparr>"

section \<open>Properties\<close>

subsection \<open>Statements, commits and the calls of one query\<close>

lemma run_statements_filter:
  "run_statements E sql ss c cur w
   = run_statements E sql (filter (\<lambda>s. length s \<noteq> 0) ss) c cur w"
  by (induction ss arbitrary: c cur w) (auto split: prod.splits sum.splits)

lemma cursor_execute_cases:
  "cursor_execute E c s w = (r, c1, w1) \<Longrightarrow>
     w1 = emit (Execute (conn_id c) s) w \<and>
     (case engine E (view c w) s of
        Inl e \<Rightarrow> r = Inl e \<and> c1 = c
      | Inr (d, desc, rs) \<Rightarrow> r = Inr \<lparr>description = desc, rows = rs\<rparr> \<and> c1 = c\<lparr>pending := Some d\<rparr>)"
  by (auto simp: cursor_execute_def split: sum.splits prod.splits)

lemma run_statements_events:
  "run_statements E sql ss c cur w = (Inr cur1, c1, w1) \<Longrightarrow>
     events w1 = events w @ concat (map (\<lambda>s. [Execute (conn_id c) s, Commit (conn_id c)])
                                     (filter (\<lambda>s. length s \<noteq> 0) ss))
     \<and> conn_id c1 = conn_id c \<and> conn_file c1 = conn_file c
     \<and> next_conn w1 = next_conn w \<and> temp_count w1 = temp_count w
     \<and> spill_files w1 = spill_files w"
proof (induction ss arbitrary: c cur w)
  case Nil
  then show ?case by simp
next
  case (Cons s ss)
  show ?case
  proof (cases "length s \<noteq> 0")
    case False
    with Cons show ?thesis by simp
  next
    case True
    obtain r c2 w2 where ex: "cursor_execute E c s (log DEBUG (''SQL Query: '' @ sql) w) = (r, c2, w2)"
      by (cases "cursor_execute E c s (log DEBUG (''SQL Query: '' @ sql) w)") auto
    with Cons.prems True obtain cur2 where r: "r = Inr cur2"
      by (cases r) auto
    obtain c3 w3 where cm: "connection_commit c2 w2 = (c3, w3)"
      by (cases "connection_commit c2 w2") auto
    from Cons.prems True ex r cm have rest: "run_statements E sql ss c3 cur2 w3 = (Inr cur1, c1, w1)"
      by simp
    from cursor_execute_cases [OF ex] r
    have w2: "w2 = emit (Execute (conn_id c) s) (log DEBUG (''SQL Query: '' @ sql) w)"
      and c2: "conn_id c2 = conn_id c" "conn_file c2 = conn_file c"
      by (auto split: sum.splits prod.splits)
    from cm have w3: "w3 = emit (Commit (conn_id c2)) (w2\<lparr>databases := (databases w2)(conn_file c2 := view c2 w2)\<rparr>)"
      and c3: "conn_id c3 = conn_id c2" "conn_file c3 = conn_file c2"
      by (auto simp: connection_commit_def)
    from Cons.IH [OF rest] w2 w3 c2 c3 True show ?thesis
      by (simp add: emit_def log_def)
  qed
qed

lemma run_statements_db:
  assumes "pending c = None"
      and "run_statements E sql ss c cur w = (r, c1, w1)"
  shows "c1 = c \<and>
         databases w1 = (databases w)(conn_file c :=
             snd (autocommit E (databases w (conn_file c)) (filter (\<lambda>s. length s \<noteq> 0) ss))) \<and>
         fst (autocommit E (databases w (conn_file c)) (filter (\<lambda>s. length s \<noteq> 0) ss))
           = (case r of Inl e \<Rightarrow> Some e | Inr cur1 \<Rightarrow> None)"
  using assms
proof (induction ss arbitrary: c cur w)
  case Nil
  then show ?case by auto
next
  case (Cons s ss)
  show ?case
  proof (cases "length s \<noteq> 0")
    case False
    with Cons.prems(2) have rest: "run_statements E sql ss c cur w = (r, c1, w1)"
      by simp
    from Cons.IH [OF Cons.prems(1) rest] False show ?thesis
      by simp
  next
    case True
    let ?w = "log DEBUG (''SQL Query: '' @ sql) w"
    have v: "view c ?w = databases w (conn_file c)"
      using Cons.prems(1) by (simp add: view_def log_def)
    show ?thesis
    proof (cases "engine E (databases w (conn_file c)) s")
      case (Inl e)
      with Cons.prems True v show ?thesis
        by (auto simp: cursor_execute_def emit_def log_def)
    next
      case (Inr res)
      obtain d desc rs where res: "res = (d, desc, rs)" by (cases res) auto
      let ?c2 = "c\<lparr>pending := Some d\<rparr>"
      let ?w2 = "emit (Execute (conn_id c) s) ?w"
      obtain c3 w3 where cm: "connection_commit ?c2 ?w2 = (c3, w3)"
        by (cases "connection_commit ?c2 ?w2") auto
      then have c3: "c3 = c" and p3: "pending c3 = None"
        and d3: "databases w3 = (databases w)(conn_file c := d)"
        using Cons.prems(1)
        by (auto simp: connection_commit_def view_def emit_def log_def)
      from Cons.prems True v Inr res cm
      have rest: "run_statements E sql ss c3 \<lparr>description = desc, rows = rs\<rparr> w3 = (r, c1, w1)"
        by (simp add: cursor_execute_def)
      from Cons.IH [OF p3 rest] c3 d3 True Inr res show ?thesis
        by (auto simp: fun_eq_iff)
    qed
  qed
qed


lemma fetch_loop_frame:
  "fetch_loop cur written w = (out, cur1, w1) \<Longrightarrow>
     out = written @ rows cur \<and>
     databases w1 = databases w \<and> events w1 = events w \<and> next_conn w1 = next_conn w \<and>
     temp_count w1 = temp_count w \<and> spill_files w1 = spill_files w"
proof (induction cur written w rule: fetch_loop.induct)
  case (1 cur written w)
  show ?case
  proof (cases "rows cur = []")
    case True
    with "1.prems" show ?thesis
      by (simp add: fetch_loop.simps [of cur written w] fetchmany_def)
  next
    case False
    let ?batch = "take QUERY_BATCH_SIZE (rows cur)"
    let ?cur = "cur\<lparr>rows := drop QUERY_BATCH_SIZE (rows cur)\<rparr>"
    let ?w = "log DEBUG (''Fetched '' @ str_nat (length ?batch) @ '' rows.'') w"
    from False have nz: "length ?batch \<noteq> 0"
      by (simp add: QUERY_BATCH_SIZE_def)
    with "1.prems" have rest: "fetch_loop ?cur (written @ ?batch) ?w = (out, cur1, w1)"
      by (simp add: fetch_loop.simps [of cur written w] fetchmany_def)
    have fm: "(?batch, ?cur) = fetchmany QUERY_BATCH_SIZE cur"
      by (simp add: fetchmany_def)
    from "1.IH" [OF fm nz rest] show ?thesis
      by (simp add: log_def)
  qed
qed

lemma query_with_connection_db:
  assumes "pending c = None"
      and "query_with_connection E sql c parameters commit w = (r, c1, w1)"
  shows "c1 = c \<and>
         databases w1 = (databases w)(conn_file c :=
             snd (autocommit E (databases w (conn_file c)) (statements sql))) \<and>
         fst (autocommit E (databases w (conn_file c)) (statements sql))
           = (case r of Inl e \<Rightarrow> Some e | Inr t \<Rightarrow> None)"
proof -
  let ?w0 = "emit (Cursor (conn_id c)) w"
  let ?cur0 = "\<lparr>description = None, rows = []\<rparr>"
  obtain r2 c2 w2 where run:
    "run_statements E sql (py_split (CHR '';'') (py_strip sql)) c ?cur0 ?w0 = (r2, c2, w2)"
    by (cases "run_statements E sql (py_split (CHR '';'') (py_strip sql)) c ?cur0 ?w0") auto
  from run_statements_db [OF assms(1) run]
  have c2: "c2 = c"
    and d2: "databases w2 = (databases w)(conn_file c :=
               snd (autocommit E (databases w (conn_file c)) (statements sql)))"
    and f2: "fst (autocommit E (databases w (conn_file c)) (statements sql))
               = (case r2 of Inl e \<Rightarrow> Some e | Inr cur1 \<Rightarrow> None)"
    by (simp_all add: statements_def emit_def)
  show ?thesis
  proof (cases r2)
    case (Inl e)
    with assms(2) run c2 d2 f2 show ?thesis
      by (auto simp: query_with_connection_def new_cursor_def cursor_close_def emit_def)
  next
    case (Inr cur)
    show ?thesis
    proof (cases "case description cur of None \<Rightarrow> [] | Some d \<Rightarrow> d")
      case Nil
      with assms(2) run c2 d2 f2 Inr show ?thesis
        by (auto simp: query_with_connection_def new_cursor_def cursor_close_def emit_def log_def)
    next
      case (Cons h hs)
      obtain out cur3 w3 where fl:
        "fetch_loop cur [] (snd (create_temp_file w2)) = (out, cur3, w3)"
        by (cases "fetch_loop cur [] (snd (create_temp_file w2))") auto
      from fetch_loop_frame [OF fl] have "databases w3 = databases w2"
        by (simp add: create_temp_file_def)
      with assms(2) run c2 d2 f2 Inr Cons fl show ?thesis
        by (auto simp: query_with_connection_def new_cursor_def cursor_close_def emit_def
              log_def create_temp_file_def Let_def)
    qed
  qed
qed

lemma query_with_connection_events:
  assumes "query_with_connection E sql c parameters commit w = (Inr t, c1, w1)"
  shows "events w1 = events w @ query_events (conn_id c) sql \<and>
         conn_id c1 = conn_id c \<and> conn_file c1 = conn_file c \<and> next_conn w1 = next_conn w"
proof -
  let ?w0 = "emit (Cursor (conn_id c)) w"
  let ?cur0 = "\<lparr>description = None, rows = []\<rparr>"
  obtain r2 c2 w2 where run:
    "run_statements E sql (py_split (CHR '';'') (py_strip sql)) c ?cur0 ?w0 = (r2, c2, w2)"
    by (cases "run_statements E sql (py_split (CHR '';'') (py_strip sql)) c ?cur0 ?w0") auto
  with assms obtain cur where r2: "r2 = Inr cur"
    by (cases r2) (auto simp: query_with_connection_def new_cursor_def)
  from run_statements_events [OF run [unfolded r2]]
  have ev: "events w2 = events w @ Cursor (conn_id c)
              # concat (map (\<lambda>s. [Execute (conn_id c) s, Commit (conn_id c)]) (statements sql))"
    and c2: "conn_id c2 = conn_id c" "conn_file c2 = conn_file c" "next_conn w2 = next_conn w"
    by (simp_all add: statements_def emit_def)
  show ?thesis
  proof (cases "case description cur of None \<Rightarrow> [] | Some d \<Rightarrow> d")
    case Nil
    with assms run r2 ev c2 show ?thesis
      by (auto simp: query_with_connection_def new_cursor_def cursor_close_def emit_def log_def
            query_events_def)
  next
    case (Cons h hs)
    obtain out cur3 w3 where fl:
      "fetch_loop cur [] (snd (create_temp_file w2)) = (out, cur3, w3)"
      by (cases "fetch_loop cur [] (snd (create_temp_file w2))") auto
    from fetch_loop_frame [OF fl]
    have "events w3 = events w2" "next_conn w3 = next_conn w2"
      by (simp_all add: create_temp_file_def)
    with assms run r2 ev c2 Cons fl show ?thesis
      by (auto simp: query_with_connection_def new_cursor_def cursor_close_def emit_def
            log_def create_temp_file_def Let_def query_events_def)
  qed
qed

lemma query_with_connection_ignores_commit:
  "query_with_connection E sql c parameters True w
   = query_with_connection E sql c parameters False w"
  by (simp add: query_with_connection_def)

lemmas run_defs =
  query_with_connection_def new_cursor_def cursor_execute_def connection_commit_def
  cursor_close_def create_temp_file_def view_def emit_def log_def py_strip_def is_space_def
  fetch_loop.simps fetchmany_def QUERY_BATCH_SIZE_def num_rows_def scripted_env_def
  scripted_engine_def empty_world_def query_def connection_def sqlite3_connect_def
  connection_rollback_def connection_close_def db_def

subsection \<open>Rendering an \<^verbatim>\<open>INSERT\<close>\<close>

lemma single_values_ok:
  "\<forall>r \<in> set rs. r \<noteq> [] \<Longrightarrow>
   single_values st rs = Inr (map (\<lambda>row. ''('' @ st (row ! 0) @ '')'') rs)"
  by (induction rs) (auto split: list.splits)

lemma single_values_empty_row:
  "[] \<in> set rs \<Longrightarrow> single_values st rs = Inl IndexError"
  by (induction rs) (auto split: list.splits sum.splits)

lemma py_split_no_sep: "sep \<notin> set s \<Longrightarrow> py_split sep s = [s]"
  by (induction s) auto

lemma py_split_terminated: "sep \<notin> set s \<Longrightarrow> py_split sep (s @ [sep]) = [s, []]"
  by (induction s) auto

lemma py_strip_id:
  assumes "s \<noteq> []" and "\<not> is_space (hd s)" and "\<not> is_space (last s)"
  shows "py_strip s = s"
proof -
  from assms(1,2) have 1: "dropWhile is_space s = s"
    by (cases s) auto
  from assms(1,3) have 2: "dropWhile is_space (rev s) = rev s"
    by (cases "rev s") (auto simp: hd_rev [symmetric])
  from 1 2 show ?thesis by (simp add: py_strip_def)
qed

lemma statements_terminated:
  assumes "b \<noteq> []" and "\<not> is_space (hd b)" and "CHR '';'' \<notin> set b"
  shows "statements (b @ '';'') = [b]"
proof -
  have "py_strip (b @ '';'') = b @ '';''"
    using assms(1,2) by (intro py_strip_id) (auto simp: is_space_def)
  with assms(1,3) show ?thesis
    by (simp add: statements_def py_split_terminated)
qed

lemma insert_statement_shape:
  assumes "insert_statement E tbl table_name = Inr sql"
  shows "\<exists>body. sql = ''INSERT INTO '' @ body @ '';''"
  using assms
  by (auto simp: insert_statement_def split: sum.splits if_splits)

lemma insert_statement_one_statement:
  assumes "insert_statement E tbl table_name = Inr sql"
      and "CHR '';'' \<notin> set (butlast sql)"
  shows "statements sql = [butlast sql]"
proof -
  from insert_statement_shape [OF assms(1)]
  obtain body where sql: "sql = (''INSERT INTO '' @ body) @ '';''"
    by auto
  then have b: "butlast sql = ''INSERT INTO '' @ body"
    by (simp add: butlast_append)
  have "statements ((''INSERT INTO '' @ body) @ '';'') = [''INSERT INTO '' @ body]"
    using assms(2) b by (intro statements_terminated) (auto simp: is_space_def)
  with sql b show ?thesis by simp
qed

text \<open>
  C8, as the claim states it, fails in two ways. A single-column chunk with an empty row
  is not rendered at all: \<^verbatim>\<open>row[0]\<close> raises \<^verbatim>\<open>IndexError\<close>. And the text
  rendered from a cell whose \<^verbatim>\<open>str\<close> contains a semicolon is not one statement:
  \<^verbatim>\<open>query_with_connection\<close>, which splits at every semicolon, runs it as two.
\<close>

theorem insert_statement_counterexample:
  "insert_statement (scripted_env []) \<lparr>columns = [''a''], data = [[''1''], []]\<rparr> ''t''
     = Inl IndexError
   \<and> insert_statement (scripted_env [])
        \<lparr>columns = [''a''], data = [[''1);INSERT INTO t (a) VALUES (2'']]\<rparr> ''t''
     = Inr (''INSERT INTO t'' @ [CHR 0x0A] @ indent18 @ ''(a)'' @ [CHR 0x0A] @ indent18
            @ ''VALUES (1);INSERT INTO t (a) VALUES (2);'')
   \<and> statements (''INSERT INTO t'' @ [CHR 0x0A] @ indent18 @ ''(a)'' @ [CHR 0x0A] @ indent18
            @ ''VALUES (1);INSERT INTO t (a) VALUES (2);'')
     = [''INSERT INTO t'' @ [CHR 0x0A] @ indent18 @ ''(a)'' @ [CHR 0x0A] @ indent18
        @ ''VALUES (1)'',
        ''INSERT INTO t (a) VALUES (2)'']"
  by (simp add: insert_statement_def scripted_env_def indent18_def statements_def
        py_strip_def is_space_def)

text \<open>
  C8, amended. For every table chunk and table name: a single-column chunk with an empty
  row raises \<^verbatim>\<open>IndexError\<close>; every other chunk is rendered into one string, made of
  \<^verbatim>\<open>INSERT INTO\<close>, the name, the column names joined by commas between parentheses,
  \<^verbatim>\<open>VALUES\<close>, the rendered rows joined by commas, and a closing semicolon. In a
  single-column table a row is rendered as the \<^verbatim>\<open>str\<close> of its value between
  parentheses; otherwise as the \<^verbatim>\<open>str\<close> of the row tuple, that is the \<^verbatim>\<open>repr\<close>
  of its items separated by a comma and a space between parentheses, with a comma after
  the item of a 1-tuple. A text without a semicolon before the closing one is exactly one
  statement for \<^verbatim>\<open>query_with_connection\<close>.
\<close>

theorem insert_statement_form:
  "(length (columns tbl) = 1 \<and> [] \<in> set (data tbl)
      \<longrightarrow> insert_statement E tbl table_name = Inl IndexError)
   \<and> (\<not> (length (columns tbl) = 1 \<and> [] \<in> set (data tbl))
      \<longrightarrow> insert_statement E tbl table_name =
          Inr (''INSERT INTO '' @ table_name @ [CHR 0x0A] @ indent18
               @ ''('' @ py_join '','' (columns tbl) @ '')'' @ [CHR 0x0A] @ indent18
               @ ''VALUES ''
               @ py_join '',''
                   (map (\<lambda>row. if length (columns tbl) = 1
                               then ''('' @ py_str E (row ! 0) @ '')''
                               else if length row = 1
                               then ''('' @ py_repr E (row ! 0) @ '',)''
                               else ''('' @ py_join '', '' (map (py_repr E) row) @ '')'')
                        (data tbl))
               @ '';''))
   \<and> (\<forall>sql. insert_statement E tbl table_name = Inr sql \<and> CHR '';'' \<notin> set (butlast sql)
          \<longrightarrow> statements sql = [butlast sql])"
proof -
  have tup: "str_tuple (py_repr E) row
             = (if length row = 1 then ''('' @ py_repr E (row ! 0) @ '',)''
                else ''('' @ py_join '', '' (map (py_repr E) row) @ '')'')" for row
  proof (cases row)
    case Nil
    then show ?thesis by (simp add: str_tuple_def)
  next
    case (Cons v vs)
    then show ?thesis by (cases vs) (simp_all add: str_tuple_def)
  qed
  then have tup_fun: "str_tuple (py_repr E)
             = (\<lambda>row. if length row = 1 then ''('' @ py_repr E (row ! 0) @ '',)''
                       else ''('' @ py_join '', '' (map (py_repr E) row) @ '')'')"
    by (intro ext)
  have 1: "insert_statement E tbl table_name = Inl IndexError"
    if "length (columns tbl) = 1" "[] \<in> set (data tbl)"
    using that by (simp add: insert_statement_def single_values_empty_row)
  have 2: "insert_statement E tbl table_name =
          Inr (''INSERT INTO '' @ table_name @ [CHR 0x0A] @ indent18
               @ ''('' @ py_join '','' (columns tbl) @ '')'' @ [CHR 0x0A] @ indent18
               @ ''VALUES ''
               @ py_join '',''
                   (map (\<lambda>row. if length (columns tbl) = 1
                               then ''('' @ py_str E (row ! 0) @ '')''
                               else if length row = 1
                               then ''('' @ py_repr E (row ! 0) @ '',)''
                               else ''('' @ py_join '', '' (map (py_repr E) row) @ '')'')
                        (data tbl))
               @ '';'')"
    if "\<not> (length (columns tbl) = 1 \<and> [] \<in> set (data tbl))"
  proof (cases "length (columns tbl) = 1")
    case True
    with that have "\<forall>r \<in> set (data tbl). r \<noteq> []" by auto
    with True show ?thesis
      by (simp add: insert_statement_def single_values_ok)
  next
    case False
    then show ?thesis
      by (simp add: insert_statement_def tup_fun)
  qed
  from 1 2 insert_statement_one_statement show ?thesis by blast
qed

theorem insert_statement_form_witness:
  "insert_statement (scripted_env []) \<lparr>columns = [''a''], data = [[''1''], [''2'']]\<rparr> ''t''
     = Inr (''INSERT INTO t'' @ [CHR 0x0A] @ indent18 @ ''(a)'' @ [CHR 0x0A]
            @ indent18 @ ''VALUES (1),(2);'')
   \<and> insert_statement (scripted_env [])
        \<lparr>columns = [''a'', ''b''], data = [[''1'', ''x''], [''2'', ''y'']]\<rparr> ''t''
     = Inr (''INSERT INTO t'' @ [CHR 0x0A] @ indent18 @ ''(a,b)'' @ [CHR 0x0A]
            @ indent18 @ ''VALUES ('1', 'x'),('2', 'y');'')
   \<and> statements (''INSERT INTO t'' @ [CHR 0x0A] @ indent18 @ ''(a,b)'' @ [CHR 0x0A]
            @ indent18 @ ''VALUES ('1', 'x'),('2', 'y');'')
     = [''INSERT INTO t'' @ [CHR 0x0A] @ indent18 @ ''(a,b)'' @ [CHR 0x0A]
            @ indent18 @ ''VALUES ('1', 'x'),('2', 'y')'']
   \<and> insert_statement (scripted_env []) \<lparr>columns = [''a''], data = [[]]\<rparr> ''t''
     = Inl IndexError"
proof -
  let ?E = "scripted_env [] :: (string list, string) env"
  let ?t1 = "\<lparr>columns = [''a''], data = [[''1''], [''2'']]\<rparr> :: string table"
  let ?t2 = "\<lparr>columns = [''a'', ''b''], data = [[''1'', ''x''], [''2'', ''y'']]\<rparr> :: string table"
  let ?t3 = "\<lparr>columns = [''a''], data = [[]]\<rparr> :: string table"
  let ?sql2 = "''INSERT INTO t'' @ [CHR 0x0A] @ indent18 @ ''(a,b)'' @ [CHR 0x0A]
            @ indent18 @ ''VALUES ('1', 'x'),('2', 'y');''"
  have h1: "\<not> (length (columns ?t1) = 1 \<and> [] \<in> set (data ?t1))" by simp
  have h2: "\<not> (length (columns ?t2) = 1 \<and> [] \<in> set (data ?t2))" by simp
  have h3: "length (columns ?t3) = 1 \<and> [] \<in> set (data ?t3)" by simp
  have h4: "CHR '';'' \<notin> set (butlast ?sql2)" by (simp add: indent18_def)
  from insert_statement_form [of ?t1 ?E "''t''"] h1
  have 1: "insert_statement ?E ?t1 ''t''
     = Inr (''INSERT INTO t'' @ [CHR 0x0A] @ indent18 @ ''(a)'' @ [CHR 0x0A]
            @ indent18 @ ''VALUES (1),(2);'')"
    by (simp add: scripted_env_def)
  from insert_statement_form [of ?t2 ?E "''t''"] h2
  have 2: "insert_statement ?E ?t2 ''t'' = Inr ?sql2"
    by (simp add: scripted_env_def)
  from insert_statement_form [of ?t2 ?E "''t''"] 2 h4
  have 3: "statements ?sql2 = [butlast ?sql2]"
    by blast
  from insert_statement_form [of ?t3 ?E "''t''"] h3
  have 4: "insert_statement ?E ?t3 ''t'' = Inl IndexError"
    by blast
  from 1 2 3 4 show ?thesis by (simp add: indent18_def)
qed

subsection \<open>\<^verbatim>\<open>copy\<close> of an empty table\<close>

text \<open>
  C7. For a table without rows \<^verbatim>\<open>copy\<close> returns \<^verbatim>\<open>None\<close> without raising, and
  the world it leaves differs from the one it found by one log record only (written at
  level \<^verbatim>\<open>INFO\<close>): no connection is opened, no statement runs, no database and no
  file changes.
\<close>

theorem copy_empty_noop:
  assumes "num_rows tbl = 0"
  shows "copy E self tbl table_name if_exists chunk_size w
         = (Inr (), w\<lparr>logs := logs w
                @ [(INFO, ''Parsons table is empty. Table will not be created.'')]\<rparr>)"
  using assms by (simp add: copy_def log_def)

theorem copy_empty_noop_witness:
  "num_rows \<lparr>columns = [''a''], data = ([] :: string list list)\<rparr> = 0 \<and>
   copy (scripted_env []) db \<lparr>columns = [''a''], data = []\<rparr> ''t'' ''fail'' 1000 empty_world
   = (Inr (), empty_world\<lparr>logs :=
        [(INFO, ''Parsons table is empty. Table will not be created.'')]\<rparr>)"
proof -
  have h: "num_rows \<lparr>columns = [''a''], data = ([] :: string list list)\<rparr> = 0"
    by (simp add: num_rows_def)
  show ?thesis
    using h copy_empty_noop [OF h, of "scripted_env []" db "''t''" "''fail''" 1000 empty_world]
    by (simp add: empty_world_def)
qed

subsection \<open>The default database file\<close>

text \<open>
  C9. The default of the \<^verbatim>\<open>file\<close> parameter is computed when the class is defined:
  every instance constructed without a file argument, in whatever world, is bound to that
  one temp file, and constructing it creates no file.
\<close>

theorem default_file_shared:
  assumes "define_SQLite w0 = (cls, w1)"
  shows "file' (fst (SQLite_init cls None w)) = TempFile (temp_count w0)
       \<and> file' (fst (SQLite_init cls None w')) = file' (fst (SQLite_init cls None w))
       \<and> snd (SQLite_init cls None w) = w"
  using assms by (auto simp: define_SQLite_def SQLite_init_def create_temp_file_def)

theorem default_file_shared_witness:
  "define_SQLite empty_world = (\<lparr>default_file = TempFile 0\<rparr>, empty_world\<lparr>temp_count := 1\<rparr>) \<and>
   file' (fst (SQLite_init \<lparr>default_file = TempFile 0\<rparr> None (empty_world\<lparr>temp_count := 1\<rparr>)))
     = TempFile 0 \<and>
   file' (fst (SQLite_init \<lparr>default_file = TempFile 0\<rparr> None (empty_world\<lparr>temp_count := 5\<rparr>)))
     = file' (fst (SQLite_init \<lparr>default_file = TempFile 0\<rparr> None (empty_world\<lparr>temp_count := 1\<rparr>)))"
proof -
  have h: "define_SQLite empty_world
           = (\<lparr>default_file = TempFile 0\<rparr>, empty_world\<lparr>temp_count := 1\<rparr>)"
    by (simp add: define_SQLite_def create_temp_file_def empty_world_def)
  have t: "temp_count empty_world = 0"
    by (simp add: empty_world_def)
  show ?thesis
    using h default_file_shared [OF h, of "empty_world\<lparr>temp_count := 1\<rparr>"
                                      "empty_world\<lparr>temp_count := 5\<rparr>"]
    unfolding t by blast
qed

subsection \<open>A query that selects no row\<close>

text \<open>
  C1 (the code departs from the claim and from its own docstring). A \<^verbatim>\<open>SELECT\<close> that
  matches no row still has result columns, so the cursor's \<^verbatim>\<open>description\<close> is set.
  \<^verbatim>\<open>query_with_connection\<close> tests the description, not the rows: it creates a
  temp file, writes the header to it and returns a table without rows, not \<^verbatim>\<open>None\<close>.
\<close>

theorem query_zero_rows_returns_table:
  "fst (query_with_connection
          (scripted_env [(''SELECT name FROM t WHERE 1 = 0'', Returns (Some [''name'']) [])])
          ''SELECT name FROM t WHERE 1 = 0''
          \<lparr>conn_id = 0, conn_file = Named ''parsons.db'', pending = None\<rparr> None True empty_world)
     = Inr (Some \<lparr>columns = [''name''], data = []\<rparr>)
   \<and> spill_files (snd (snd (query_with_connection
          (scripted_env [(''SELECT name FROM t WHERE 1 = 0'', Returns (Some [''name'']) [])])
          ''SELECT name FROM t WHERE 1 = 0''
          \<lparr>conn_id = 0, conn_file = Named ''parsons.db'', pending = None\<rparr> None True empty_world)))
     = [(TempFile 0, [''name''], [])]"
  by (simp add: run_defs)

subsection \<open>The \<^verbatim>\<open>commit\<close> argument\<close>

text \<open>
  C2 (the code departs from the claim and from its own docstring). The query string is
  split at the semicolons and the non-empty fragments run in order on one cursor, but
  \<^verbatim>\<open>connection.commit()\<close> is called after each of them whatever the \<^verbatim>\<open>commit\<close>
  argument: with \<^verbatim>\<open>commit=False\<close> both statements below are committed, each right
  after it ran, and both are durable when the call returns.
\<close>

theorem query_commit_false_commits:
  "events (snd (snd (query_with_connection (scripted_env [])
      ''INSERT INTO t VALUES (1);INSERT INTO t VALUES (2);''
      \<lparr>conn_id = 0, conn_file = Named ''parsons.db'', pending = None\<rparr> None False empty_world)))
     = [Cursor 0, Execute 0 ''INSERT INTO t VALUES (1)'', Commit 0,
        Execute 0 ''INSERT INTO t VALUES (2)'', Commit 0, CursorClose 0]
   \<and> databases (snd (snd (query_with_connection (scripted_env [])
      ''INSERT INTO t VALUES (1);INSERT INTO t VALUES (2);''
      \<lparr>conn_id = 0, conn_file = Named ''parsons.db'', pending = None\<rparr> None False empty_world)))
      (Named ''parsons.db'')
     = [''INSERT INTO t VALUES (1)'', ''INSERT INTO t VALUES (2)'']"
  by (simp add: run_defs)

subsection \<open>The scope of a connection\<close>

text \<open>
  C3, as the claim states it, fails: a database error raised inside the scope does not
  reach the caller. Here the engine raises on the only statement of a query; the
  transaction is rolled back and the handle closed, and \<^verbatim>\<open>query\<close> returns \<^verbatim>\<open>None\<close>
  as if nothing had happened.
\<close>

theorem connection_error_propagates_counterexample:
  "engine (scripted_env [(''SELECT 1'', Raises (DatabaseError ''disk I/O error''))]) [] ''SELECT 1''
     = Inl (DatabaseError ''disk I/O error'')
   \<and> fst (query (scripted_env [(''SELECT 1'', Raises (DatabaseError ''disk I/O error''))])
            db ''SELECT 1'' None empty_world) \<noteq> Inl (DatabaseError ''disk I/O error'')
   \<and> fst (query (scripted_env [(''SELECT 1'', Raises (DatabaseError ''disk I/O error''))])
            db ''SELECT 1'' None empty_world) = Inr None
   \<and> events (snd (query (scripted_env [(''SELECT 1'', Raises (DatabaseError ''disk I/O error''))])
            db ''SELECT 1'' None empty_world))
     = [Connect 0 (Named ''parsons.db''), Cursor 0, Execute 0 ''SELECT 1'', CursorClose 0,
        Rollback 0, Close 0]"
  by (simp add: run_defs)

text \<open>
  C3, amended. For every body run inside the scope: if it raises a database error, the
  transaction is rolled back, the handle closed and the error swallowed (the scope ends
  without a value); if it raises another error, the handle is closed and the error
  reaches the caller; if it returns, the handle is closed and the value is passed on.
  The close is the last call on every path, and nothing durable changes on the way out.
\<close>

theorem connection_scope:
  assumes "sqlite3_connect (file' self) w = (c, w1)"
      and "body c w1 = (r, c2, w2)"
  shows "fst (connection self body w)
           = (case r of
                Inr a \<Rightarrow> Inr (Some a)
              | Inl e \<Rightarrow> if is_sqlite3_Error e then Inr None else Inl e)
       \<and> events (snd (connection self body w))
           = events w2
             @ (if (case r of Inl e \<Rightarrow> is_sqlite3_Error e | Inr a \<Rightarrow> False)
                then [Rollback (conn_id c2)] else [])
             @ [Close (conn_id c2)]
       \<and> databases (snd (connection self body w)) = databases w2"
  using assms
  by (cases r)
     (auto simp: connection_def connection_rollback_def connection_close_def emit_def)

theorem connection_scope_witness:
  "sqlite3_connect (file' db) empty_world
     = (\<lparr>conn_id = 0, conn_file = Named ''parsons.db'', pending = None\<rparr>,
        emit (Connect 0 (Named ''parsons.db'')) (empty_world\<lparr>next_conn := 1\<rparr>))
   \<and> fst (connection db
            (\<lambda>c w. (Inl (OtherError ''KeyboardInterrupt'') :: error + unit, c, w)) empty_world)
       = Inl (OtherError ''KeyboardInterrupt'')
   \<and> events (snd (connection db
            (\<lambda>c w. (Inl (OtherError ''KeyboardInterrupt'') :: error + unit, c, w)) empty_world))
       = [Connect 0 (Named ''parsons.db''), Close 0]"
proof -
  let ?c = "\<lparr>conn_id = 0, conn_file = Named ''parsons.db'', pending = None\<rparr> :: string list conn"
  let ?w = "emit (Connect 0 (Named ''parsons.db'')) (empty_world\<lparr>next_conn := 1\<rparr>)"
  let ?body = "\<lambda>(c :: string list conn) (w :: (string list, string) world).
                 (Inl (OtherError ''KeyboardInterrupt'') :: error + unit, c, w)"
  have h1: "sqlite3_connect (file' db) empty_world = (?c, ?w)"
    by (simp add: sqlite3_connect_def db_def empty_world_def emit_def)
  have h2: "?body ?c ?w = (Inl (OtherError ''KeyboardInterrupt''), ?c, ?w)"
    by simp
  show ?thesis
    using h1 h2
      connection_scope [where self = db and w = empty_world and c = ?c and ?w1.0 = ?w
        and body = ?body and r = "Inl (OtherError ''KeyboardInterrupt'')"
        and ?c2.0 = ?c and ?w2.0 = ?w]
    by (simp add: emit_def empty_world_def)
qed

subsection \<open>Whether a table exists\<close>

text \<open>
  C5, as the claim states it, fails: the result is not whether the catalog lookup found a
  row. \<^verbatim>\<open>LIKE\<close> matches \<^verbatim>\<open>_\<close> with any character, so the lookup for
  \<^verbatim>\<open>a_c\<close> finds the row of a table \<^verbatim>\<open>abc\<close>; \<^verbatim>\<open>table_exists\<close> compares the
  name it got back with the name it asked for and answers false.
\<close>

theorem table_exists_like_counterexample:
  "fst (query (scripted_env [(table_exists_sql ''a_c'', Returns (Some [''name'']) [[''abc'']])])
          db (table_exists_sql ''a_c'') None empty_world)
     = Inr (Some \<lparr>columns = [''name''], data = [[''abc'']]\<rparr>)
   \<and> fst (table_exists (scripted_env [(table_exists_sql ''a_c'', Returns (Some [''name'']) [[''abc'']])])
          db ''a_c'' empty_world)
     = Inr False
   \<and> fst (table_exists (scripted_env [(table_exists_sql ''a_c'', Returns (Some [''name'']) [[''abc'']])])
          db ''a_c'' empty_world)
     \<noteq> Inr True"
  by (simp add: run_defs table_exists_def table_exists_sql_def first_def)

text \<open>
  C5, amended. \<^verbatim>\<open>table_exists\<close> runs the catalog lookup
  (\<^verbatim>\<open>sqlite_master\<close>, \<^verbatim>\<open>LIKE\<close> on the name) through \<^verbatim>\<open>query\<close>; when the
  lookup returns a table, the answer is true if and only if the first value of its first
  row equals the name asked for. It is false when the lookup found no row, and true when
  the first row found carries exactly that name.
\<close>

theorem table_exists_first_value:
  assumes "query E self (table_exists_sql table_name) None w = (Inr (Some t), w1)"
  shows "(table_exists E self table_name w = (Inr True, w1)
            \<longleftrightarrow> (\<exists>v. first t = Some v \<and> py_eq_str E v table_name))
       \<and> (table_exists E self table_name w = (Inr False, w1)
            \<longleftrightarrow> \<not> (\<exists>v. first t = Some v \<and> py_eq_str E v table_name))
       \<and> (data t = [] \<longrightarrow> table_exists E self table_name w = (Inr False, w1))"
  using assms by (auto simp: table_exists_def first_def split: option.splits list.splits)

theorem table_exists_first_value_witness:
  "table_exists (scripted_env [(table_exists_sql ''t'', Returns (Some [''name'']) [[''t'']])])
      db ''t'' empty_world
   = (Inr True,
      snd (query (scripted_env [(table_exists_sql ''t'', Returns (Some [''name'']) [[''t'']])])
             db (table_exists_sql ''t'') None empty_world))"
proof -
  let ?E = "scripted_env [(table_exists_sql ''t'', Returns (Some [''name'']) [[''t'']])]"
  let ?t = "\<lparr>columns = [''name''], data = [[''t'']]\<rparr> :: string table"
  have "fst (query ?E db (table_exists_sql ''t'') None empty_world) = Inr (Some ?t)"
    by (simp add: run_defs table_exists_sql_def)
  then have h: "query ?E db (table_exists_sql ''t'') None empty_world
                = (Inr (Some ?t), snd (query ?E db (table_exists_sql ''t'') None empty_world))"
    by (simp add: prod_eq_iff)
  have f: "first ?t = Some ''t''" "py_eq_str ?E ''t'' ''t''"
    by (simp_all add: first_def scripted_env_def)
  show ?thesis
    using table_exists_first_value [OF h] f by blast
qed

subsection \<open>The precheck before a table is created\<close>

text \<open>
  C4, as the claim states it, fails. The precheck also raises when the \<^verbatim>\<open>DROP TABLE\<close>
  statement raises (first run: \<^verbatim>\<open>if_exists\<close> is drop, the table is there, the engine
  reports a lock) and when the lookup of \<^verbatim>\<open>table_exists\<close> raises (second run:
  \<^verbatim>\<open>if_exists\<close> is append, the quote in the name breaks the lookup, its database error
  is swallowed by \<^verbatim>\<open>query\<close> and \<^verbatim>\<open>.first\<close> of \<^verbatim>\<open>None\<close> raises). And what counts
  is the answer of \<^verbatim>\<open>table_exists\<close>, not whether the table is there (third run:
  \<^verbatim>\<open>if_exists\<close> is fail, the table \<^verbatim>\<open>abc\<close> is asked for as \<^verbatim>\<open>ABC\<close>, the lookup
  finds it, \<^verbatim>\<open>table_exists\<close> answers false and the precheck returns \<^verbatim>\<open>True\<close>).
\<close>

theorem create_table_precheck_counterexample:
  "fst (table_exists
          (scripted_env [(table_exists_sql ''t'', Returns (Some [''name'']) [[''t'']]),
                         (''DROP TABLE t'', Raises (DatabaseError ''database table is locked''))])
          db ''t'' (snd (sqlite3_connect (file' db) empty_world)))
     = Inr True
   \<and> fst (create_table_precheck
          (scripted_env [(table_exists_sql ''t'', Returns (Some [''name'']) [[''t'']]),
                         (''DROP TABLE t'', Raises (DatabaseError ''database table is locked''))])
          db (fst (sqlite3_connect (file' db) empty_world)) ''t'' ''drop''
          (snd (sqlite3_connect (file' db) empty_world)))
     = Inl (DatabaseError ''database table is locked'')
   \<and> fst (create_table_precheck
          (scripted_env [(table_exists_sql ''it's'', Raises (DatabaseError ''unrecognized token''))])
          db (fst (sqlite3_connect (file' db) empty_world)) ''it's'' ''append''
          (snd (sqlite3_connect (file' db) empty_world)))
     = Inl (AttributeError ''first'')
   \<and> fst (create_table_precheck
          (scripted_env [(table_exists_sql ''ABC'', Returns (Some [''name'']) [[''abc'']])])
          db (fst (sqlite3_connect (file' db) empty_world)) ''ABC'' ''fail''
          (snd (sqlite3_connect (file' db) empty_world)))
     = Inr (Some True)"
  by (simp add: run_defs create_table_precheck_def table_exists_def table_exists_sql_def first_def)

text \<open>
  C4, amended. Let \<open>rt\<close> be the outcome of \<^verbatim>\<open>table_exists\<close> and \<open>rq\<close> the outcome
  of the \<^verbatim>\<open>DROP TABLE\<close> query run after it. \<^verbatim>\<open>_create_table_precheck\<close> raises if
  and only if \<^verbatim>\<open>if_exists\<close> is not one of fail, append, drop (a \<^verbatim>\<open>ValueError\<close>, and
  the world is untouched: not even the lookup is made), or \<^verbatim>\<open>table_exists\<close> raises
  (the same error), or \<^verbatim>\<open>table_exists\<close> answers true and \<^verbatim>\<open>if_exists\<close> is fail (a
  \<^verbatim>\<open>ValueError\<close>) or is drop and the \<^verbatim>\<open>DROP TABLE\<close> query raises (the same error).
  It returns \<^verbatim>\<open>True\<close> exactly when the value is valid and \<^verbatim>\<open>table_exists\<close> answers
  false, or answers true with drop and the \<^verbatim>\<open>DROP TABLE\<close> query, made on the caller's
  connection, has run without error. It returns \<^verbatim>\<open>None\<close> exactly for append and the
  answer true. Except for that drop nothing follows the lookup.
\<close>

theorem create_table_precheck_outcomes:
  assumes lookup: "table_exists E self table_name w = (rt, w1)"
      and drop: "query_with_connection E (''DROP TABLE '' @ table_name) c None True w1
                 = (rq, c2, w2)"
  shows "(isl (fst (create_table_precheck E self c table_name if_exists w))
            \<longleftrightarrow> if_exists \<notin> set [''fail'', ''append'', ''drop'']
                \<or> isl rt
                \<or> (rt = Inr True \<and> (if_exists = ''fail'' \<or> (if_exists = ''drop'' \<and> isl rq))))
       \<and> (if_exists \<notin> set [''fail'', ''append'', ''drop'']
            \<longrightarrow> create_table_precheck E self c table_name if_exists w
                  = (Inl (ValueError ''Invalid value for `if_exists` argument''), c, w))
       \<and> (if_exists \<in> set [''fail'', ''append'', ''drop''] \<and> isl rt
            \<longrightarrow> create_table_precheck E self c table_name if_exists w = (Inl (projl rt), c, w1))
       \<and> (if_exists = ''fail'' \<and> rt = Inr True
            \<longrightarrow> create_table_precheck E self c table_name if_exists w
                  = (Inl (ValueError ''Table already exists.''), c, w1))
       \<and> (if_exists = ''drop'' \<and> rt = Inr True \<and> isl rq
            \<longrightarrow> create_table_precheck E self c table_name if_exists w = (Inl (projl rq), c2, w2))
       \<and> (fst (create_table_precheck E self c table_name if_exists w) = Inr (Some True)
            \<longleftrightarrow> if_exists \<in> set [''fail'', ''append'', ''drop'']
                \<and> (rt = Inr False \<or> (rt = Inr True \<and> if_exists = ''drop'' \<and> \<not> isl rq)))
       \<and> (fst (create_table_precheck E self c table_name if_exists w) = Inr None
            \<longleftrightarrow> if_exists = ''append'' \<and> rt = Inr True)
       \<and> (if_exists = ''drop'' \<and> rt = Inr True \<and> \<not> isl rq
            \<longrightarrow> snd (create_table_precheck E self c table_name if_exists w)
                  = (c2, log INFO (table_name @ '' dropped.'') w2)
                \<and> events w2 = events w1 @ query_events (conn_id c) (''DROP TABLE '' @ table_name))
       \<and> (if_exists \<in> set [''fail'', ''append'', ''drop''] \<and> \<not> (if_exists = ''drop'' \<and> rt = Inr True)
            \<longrightarrow> snd (create_table_precheck E self c table_name if_exists w) = (c, w1))"
proof (cases "if_exists \<in> set [''fail'', ''append'', ''drop'']")
  case False
  then show ?thesis
    by (simp add: create_table_precheck_def)
next
  case True
  show ?thesis
  proof (cases rt)
    case (Inl e)
    with True lookup show ?thesis
      by (auto simp: create_table_precheck_def)
  next
    case (Inr ex)
    show ?thesis
    proof (cases "if_exists = ''drop'' \<and> ex")
      case False
      with True lookup Inr show ?thesis
        by (cases ex) (auto simp: create_table_precheck_def)
    next
      case True
      then have ie: "if_exists = ''drop''" and ex: ex by simp_all
      show ?thesis
      proof (cases rq)
        case (Inl e)
        with lookup drop Inr ie ex show ?thesis
          by (simp add: create_table_precheck_def)
      next
        case r: (Inr res)
        from query_with_connection_events [OF drop [unfolded r]]
        have "events w2 = events w1 @ query_events (conn_id c) (''DROP TABLE '' @ table_name)"
          by simp
        with lookup drop Inr ie ex r show ?thesis
          by (simp add: create_table_precheck_def)
      qed
    qed
  qed
qed

theorem create_table_precheck_outcomes_witness:
  "fst (table_exists (scripted_env [(table_exists_sql ''t'', Returns (Some [''name'']) [[''t'']])])
          db ''t'' (snd (sqlite3_connect (file' db) empty_world)))
     = Inr True
   \<and> fst (create_table_precheck
            (scripted_env [(table_exists_sql ''t'', Returns (Some [''name'']) [[''t'']])]) db
            (fst (sqlite3_connect (file' db) empty_world)) ''t'' ''drop''
            (snd (sqlite3_connect (file' db) empty_world)))
       = Inr (Some True)
   \<and> events (snd (snd (create_table_precheck
            (scripted_env [(table_exists_sql ''t'', Returns (Some [''name'']) [[''t'']])]) db
            (fst (sqlite3_connect (file' db) empty_world)) ''t'' ''drop''
            (snd (sqlite3_connect (file' db) empty_world)))))
       = [Connect 0 (Named ''parsons.db''), Connect 1 (Named ''parsons.db''), Cursor 1,
          Execute 1 (table_exists_sql ''t''), Commit 1, CursorClose 1, Close 1,
          Cursor 0, Execute 0 ''DROP TABLE t'', Commit 0, CursorClose 0]"
proof -
  let ?E = "scripted_env [(table_exists_sql ''t'', Returns (Some [''name'']) [[''t'']])]"
  let ?c = "fst (sqlite3_connect (file' db) empty_world) :: string list conn"
  let ?w = "snd (sqlite3_connect (file' db) empty_world) :: (string list, string) world"
  let ?w1 = "snd (table_exists ?E db ''t'' ?w)"
  let ?q = "query_with_connection ?E (''DROP TABLE '' @ ''t'') ?c None True ?w1"
  have t: "fst (table_exists ?E db ''t'' ?w) = Inr True"
    by (simp add: run_defs table_exists_def table_exists_sql_def first_def)
  then have h1: "table_exists ?E db ''t'' ?w = (Inr True, ?w1)"
    by (simp add: prod_eq_iff)
  have "fst ?q = Inr None"
    by (simp add: run_defs table_exists_def table_exists_sql_def first_def)
  then have h2: "?q = (Inr None, fst (snd ?q), snd (snd ?q))"
    by (simp add: prod_eq_iff)
  have ev1: "events ?w1 = [Connect 0 (Named ''parsons.db''), Connect 1 (Named ''parsons.db''),
          Cursor 1, Execute 1 (table_exists_sql ''t''), Commit 1, CursorClose 1, Close 1]"
    by (simp add: run_defs table_exists_def table_exists_sql_def first_def)
  have qe: "query_events 0 (''DROP TABLE '' @ ''t'')
            = [Cursor 0, Execute 0 ''DROP TABLE t'', Commit 0, CursorClose 0]"
    by (simp add: query_events_def statements_def py_strip_def is_space_def)
  have id: "conn_id ?c = 0"
    by (simp add: sqlite3_connect_def empty_world_def)
  from create_table_precheck_outcomes [OF h1 h2, where if_exists = "''drop''"]
  show ?thesis
    using t ev1 qe id by (simp add: log_def)
qed

subsection \<open>Chunks and the effect of the insert loop\<close>

lemma autocommit_append:
  "autocommit E d (xs @ ys)
   = (case autocommit E d xs of
        (Some e, d1) \<Rightarrow> (Some e, d1)
      | (None, d1) \<Rightarrow> autocommit E d1 ys)"
  by (induction xs arbitrary: d) (auto split: sum.splits prod.splits option.splits)

lemma insert_statement_rectangular:
  assumes "rectangular t"
  shows "\<exists>sql. insert_statement E t table_name = Inr sql"
proof (cases "length (columns t) = 1")
  case True
  with assms have "\<forall>r \<in> set (data t). r \<noteq> []"
    by (auto simp: rectangular_def)
  with True show ?thesis
    by (simp add: insert_statement_def single_values_ok)
next
  case False
  then show ?thesis
    by (simp add: insert_statement_def)
qed

lemma copy_inserts_db:
  assumes "pending c = None"
      and "\<forall>t \<in> set ts. rectangular t"
      and "copy_inserts E table_name ts c w = (r, c1, w1)"
  shows "c1 = c \<and>
         databases w1 = (databases w)(conn_file c :=
           snd (autocommit E (databases w (conn_file c))
                  (concat (map (\<lambda>t. statements (projr (insert_statement E t table_name))) ts))))"
  using assms
proof (induction ts arbitrary: w)
  case Nil
  then show ?case by auto
next
  case (Cons t ts)
  from Cons.prems(2) obtain sql where sql: "insert_statement E t table_name = Inr sql"
    using insert_statement_rectangular [of t E table_name] by auto
  obtain r2 c2 w2 where q: "query_with_connection E sql c None True w = (r2, c2, w2)"
    by (cases "query_with_connection E sql c None True w") auto
  let ?d = "databases w (conn_file c)"
  obtain oe d1 where a: "autocommit E ?d (statements sql) = (oe, d1)"
    by (cases "autocommit E ?d (statements sql)") auto
  from query_with_connection_db [OF Cons.prems(1) q] a
  have c2: "c2 = c"
    and d2: "databases w2 = (databases w)(conn_file c := d1)"
    and f2: "oe = (case r2 of Inl e \<Rightarrow> Some e | Inr t \<Rightarrow> None)"
    by simp_all
  show ?case
  proof (cases r2)
    case (Inl e)
    with Cons.prems(3) sql q c2 d2 f2 a show ?thesis
      by (simp add: autocommit_append)
  next
    case (Inr res)
    with Cons.prems(3) sql q c2
    have rest: "copy_inserts E table_name ts c w2 = (r, c1, w1)"
      by simp
    from Cons.prems(2) have rect: "\<forall>t \<in> set ts. rectangular t" by simp
    from Cons.IH [OF Cons.prems(1) rect rest] d2 f2 sql a Inr show ?thesis
      by (auto simp: autocommit_append fun_eq_iff)
  qed
qed

lemma copy_inserts_events:
  assumes "copy_inserts E table_name ts c w = (Inr u, c1, w1)"
  shows "events w1 = events w
           @ concat (map (\<lambda>t. query_events (conn_id c) (projr (insert_statement E t table_name))) ts)
       \<and> conn_id c1 = conn_id c"
  using assms
proof (induction ts arbitrary: c w)
  case Nil
  then show ?case by simp
next
  case (Cons t ts)
  from Cons.prems obtain sql where sql: "insert_statement E t table_name = Inr sql"
    by (cases "insert_statement E t table_name") auto
  obtain r2 c2 w2 where q: "query_with_connection E sql c None True w = (r2, c2, w2)"
    by (cases "query_with_connection E sql c None True w") auto
  with Cons.prems sql obtain res where r2: "r2 = Inr res"
    by (cases r2) auto
  from Cons.prems sql q r2 have rest: "copy_inserts E table_name ts c2 w2 = (Inr u, c1, w1)"
    by simp
  from query_with_connection_events [OF q [unfolded r2]]
  have "events w2 = events w @ query_events (conn_id c) sql" and "conn_id c2 = conn_id c"
    by simp_all
  with Cons.IH [OF rest] sql show ?case
    by simp
qed

lemma chunk_rows_Nil [simp]: "chunk_rows n [] = []"
  by (subst chunk_rows.simps) simp

lemma chunk_rows_concat: "0 < n \<Longrightarrow> concat (chunk_rows n xs) = xs"
proof (induction n xs rule: chunk_rows.induct)
  case (1 n xs)
  then show ?case
    by (cases "xs = []") (simp_all add: chunk_rows.simps [of n xs])
qed

lemma ceil_div_small: "0 < m \<Longrightarrow> m \<le> n \<Longrightarrow> (m + n - 1) div n = (1::nat)"
  by (intro div_nat_eqI) auto

lemma ceil_div_step:
  assumes "0 < n" and "n < m"
  shows "(m + n - 1) div n = (m - 1) div n + (1::nat)"
proof -
  from assms have e: "m + n - 1 = (m - 1) + n" by simp
  from assms have "n \<noteq> 0" by simp
  then have "((m - 1) + n) div n = (m - 1) div n + 1" by (rule div_add_self2)
  with e show ?thesis by (simp only:)
qed

lemma chunk_rows_length: "0 < n \<Longrightarrow> length (chunk_rows n xs) = (length xs + n - 1) div n"
proof (induction n xs rule: chunk_rows.induct)
  case (1 n xs)
  show ?case
  proof (cases "xs = []")
    case True
    with "1.prems" show ?thesis by simp
  next
    case False
    with "1.IH" "1.prems"
    have ih: "length (chunk_rows n (drop n xs)) = (length xs - n + n - 1) div n"
      by simp
    from False have pos: "0 < length xs" by simp
    show ?thesis
    proof (cases "length xs \<le> n")
      case True
      with ih False "1.prems" ceil_div_small [OF pos True] show ?thesis
        by (simp add: chunk_rows.simps [of n xs])
    next
      case False
      then have lt: "n < length xs" by simp
      with ih have "length (chunk_rows n (drop n xs)) = (length xs - 1) div n"
        by simp
      with \<open>xs \<noteq> []\<close> "1.prems" ceil_div_step [OF "1.prems" lt] show ?thesis
        by (simp add: chunk_rows.simps [of n xs])
    qed
  qed
qed

lemma chunk_rows_nth:
  "0 < n \<Longrightarrow> i < length (chunk_rows n xs) \<Longrightarrow> chunk_rows n xs ! i = take n (drop (i * n) xs)"
proof (induction n xs arbitrary: i rule: chunk_rows.induct)
  case (1 n xs)
  show ?case
  proof (cases "xs = []")
    case True
    with "1.prems" show ?thesis
      by (simp add: chunk_rows.simps [of n xs])
  next
    case False
    show ?thesis
    proof (cases i)
      case 0
      with False "1.prems" show ?thesis
        by (simp add: chunk_rows.simps [of n xs])
    next
      case (Suc j)
      with False "1.prems" have j: "j < length (chunk_rows n (drop n xs))"
        by (simp add: chunk_rows.simps [of n xs])
      from "1.IH" [OF _ "1.prems"(1) j] False "1.prems"(1)
      have "chunk_rows n (drop n xs) ! j = take n (drop (j * n) (drop n xs))"
        by simp
      with Suc False "1.prems" show ?thesis
        by (simp add: chunk_rows.simps [of n xs] add.commute)
    qed
  qed
qed

lemma chunk_rows_subset: "ys \<in> set (chunk_rows n xs) \<Longrightarrow> set ys \<subseteq> set xs"
proof (induction n xs rule: chunk_rows.induct)
  case (1 n xs)
  show ?case
  proof (cases "n = 0 \<or> xs = []")
    case True
    with "1.prems" show ?thesis
      by (simp add: chunk_rows.simps [of n xs])
  next
    case False
    with "1.prems" have "ys = take n xs \<or> ys \<in> set (chunk_rows n (drop n xs))"
      by (simp add: chunk_rows.simps [of n xs])
    then show ?thesis
    proof
      assume "ys = take n xs"
      then show ?thesis by (simp add: set_take_subset)
    next
      assume "ys \<in> set (chunk_rows n (drop n xs))"
      with "1.IH" False have "set ys \<subseteq> set (drop n xs)" by simp
      then show ?thesis using set_drop_subset [of n xs] by blast
    qed
  qed
qed

lemma chunk_rectangular:
  "rectangular tbl \<Longrightarrow> \<forall>t \<in> set (chunk n tbl). rectangular t"
  using chunk_rows_subset [of _ n "data tbl"]
  by (fastforce simp: chunk_def rectangular_def)

subsection \<open>\<^verbatim>\<open>copy\<close>: one \<^verbatim>\<open>INSERT\<close> per chunk, each committed at once\<close>

lemma create_table_precheck_conn:
  assumes "create_table_precheck E self c table_name if_exists w = (Inr needed, c1, w1)"
  shows "conn_id c1 = conn_id c \<and> (pending c = None \<longrightarrow> c1 = c)"
proof (cases "if_exists = ''drop'' \<and> fst (table_exists E self table_name w) = Inr True")
  case True
  obtain w0 where te: "table_exists E self table_name w = (Inr True, w0)"
    using True by (cases "table_exists E self table_name w") auto
  obtain r2 c2 w2 where q:
    "query_with_connection E (''DROP TABLE '' @ table_name) c None True w0 = (r2, c2, w2)"
    by (cases "query_with_connection E (''DROP TABLE '' @ table_name) c None True w0") auto
  with assms True te obtain res where r2: "r2 = Inr res" and c2: "c2 = c1"
    by (cases r2) (auto simp: create_table_precheck_def)
  from query_with_connection_events [OF q [unfolded r2]] query_with_connection_db [OF _ q] c2
  show ?thesis by auto
next
  case False
  with assms show ?thesis
    by (auto simp: create_table_precheck_def split: if_splits prod.splits sum.splits bool.splits)
qed

lemma copy_create_conn:
  assumes "copy_create E self tbl table_name if_exists c w = (Inr tbl1, c1, w1)"
  shows "conn_id c1 = conn_id c \<and> data tbl1 = data tbl"
proof -
  obtain r0 c0 w0 where p: "create_table_precheck E self c table_name if_exists w = (r0, c0, w0)"
    by (cases "create_table_precheck E self c table_name if_exists w") auto
  with assms obtain needed where r0: "r0 = Inr needed"
    by (cases r0) (auto simp: copy_create_def)
  from create_table_precheck_conn [OF p [unfolded r0]] have c0: "conn_id c0 = conn_id c"
    by simp
  show ?thesis
  proof (cases "needed = Some True")
    case False
    with assms p r0 c0 show ?thesis
      by (auto simp: copy_create_def)
  next
    case True
    let ?sql = "fst (create_statement E tbl table_name)"
    let ?tbl = "snd (create_statement E tbl table_name)"
    obtain r2 c2 w2 where q: "query_with_connection E ?sql c0 None True w0 = (r2, c2, w2)"
      by (cases "query_with_connection E ?sql c0 None True w0") auto
    with assms p r0 True obtain res where r2: "r2 = Inr res" and c2: "c2 = c1" and t: "tbl1 = ?tbl"
      by (cases r2) (auto simp: copy_create_def split: prod.splits)
    from query_with_connection_events [OF q [unfolded r2]] c0 c2 t show ?thesis
      by (simp add: create_statement_def Let_def)
  qed
qed

lemma connection_databases:
  "sqlite3_connect (file' self) w = (c, w0) \<Longrightarrow> body c w0 = (r, c2, w2) \<Longrightarrow>
   databases (snd (connection self body w)) = databases w2"
  by (cases r)
     (auto simp: connection_def connection_rollback_def connection_close_def emit_def)

lemmas copy_defs =
  copy_def copy_body_def copy_create_def create_table_precheck_def table_exists_def
  table_exists_sql_def first_def create_statement_def columns_convert_def evaluate_table_def
  evaluate_column_def data_type_def cells_of_def str_type_def chunk_def chunk_rows.simps
  insert_statement_def indent18_def str_tuple_def Let_def

lemma executed_append: "executed (xs @ ys) = executed xs @ executed ys"
  by (induction xs rule: executed.induct) simp_all

lemma executed_one_per_item:
  "executed (concat (map (\<lambda>t. [Cursor k, Execute k (f t), Commit k, CursorClose k]) ts))
   = map (\<lambda>t. (k, f t)) ts"
  by (induction ts) simp_all

lemma copy_inserts_rendered:
  "copy_inserts E table_name ts c w = (Inr u, c1, w1) \<Longrightarrow>
   \<forall>t \<in> set ts. \<exists>sql. insert_statement E t table_name = Inr sql"
proof (induction ts arbitrary: c w)
  case Nil
  then show ?case by simp
next
  case (Cons t ts)
  from Cons.prems obtain sql where sql: "insert_statement E t table_name = Inr sql"
    by (cases "insert_statement E t table_name") auto
  obtain r2 c2 w2 where q: "query_with_connection E sql c None True w = (r2, c2, w2)"
    by (cases "query_with_connection E sql c None True w") auto
  with Cons.prems sql obtain res where r2: "r2 = Inr res"
    by (cases r2) auto
  from Cons.prems sql q r2 have "copy_inserts E table_name ts c2 w2 = (Inr u, c1, w1)"
    by simp
  from Cons.IH [OF this] sql show ?case by simp
qed

text \<open>
  C6, as the claim states it, fails in two ways. Not every \<^verbatim>\<open>copy\<close> of a non-empty
  table reaches the inserts: with the default \<^verbatim>\<open>if_exists="fail"\<close> and a table that
  \<^verbatim>\<open>table_exists\<close> finds, the precheck raises, and a 5-row table copied in chunks of
  2 gives no \<^verbatim>\<open>INSERT\<close> at all, not 3: the only statement that runs is the catalog
  lookup. And a chunk is not always one \<^verbatim>\<open>INSERT\<close>: the rendered text is split at
  every semicolon, so a one-row table whose cell contains one gives two \<^verbatim>\<open>INSERT\<close>
  statements for its single chunk.
\<close>

theorem copy_insert_count_counterexample:
  "fst (copy (scripted_env [(table_exists_sql ''t'', Returns (Some [''name'']) [[''t'']])]) db
          \<lparr>columns = [''a''], data = [[''1''], [''2''], [''3''], [''4''], [''5'']]\<rparr>
          ''t'' ''fail'' 2 empty_world)
     = Inl (ValueError ''Table already exists.'')
   \<and> executed (events (snd (copy
          (scripted_env [(table_exists_sql ''t'', Returns (Some [''name'']) [[''t'']])]) db
          \<lparr>columns = [''a''], data = [[''1''], [''2''], [''3''], [''4''], [''5'']]\<rparr>
          ''t'' ''fail'' 2 empty_world)))
     = [(1, table_exists_sql ''t'')]
   \<and> (num_rows \<lparr>columns = [''a''], data = [[''1''], [''2''], [''3''], [''4''], [''5'']]\<rparr> + 2 - 1)
       div 2 = 3
   \<and> fst (copy (scripted_env [(table_exists_sql ''t'', Returns (Some [''name'']) [])]) db
          \<lparr>columns = [''a''], data = [[''1);INSERT INTO t (a) VALUES (2'']]\<rparr>
          ''t'' ''fail'' 1 empty_world)
     = Inr ()
   \<and> executed (events (snd (copy
          (scripted_env [(table_exists_sql ''t'', Returns (Some [''name'']) [])]) db
          \<lparr>columns = [''a''], data = [[''1);INSERT INTO t (a) VALUES (2'']]\<rparr>
          ''t'' ''fail'' 1 empty_world)))
     = [(1, table_exists_sql ''t''),
        (0, ''CREATE TABLE t ( '' @ [CHR 0x0A] @ '' a text '' @ [CHR 0x0A] @ '')''),
        (0, ''INSERT INTO t'' @ [CHR 0x0A] @ indent18 @ ''(a)'' @ [CHR 0x0A] @ indent18
            @ ''VALUES (1)''),
        (0, ''INSERT INTO t (a) VALUES (2)'')]
   \<and> length (chunk 1 \<lparr>columns = [''a''], data = [[''1);INSERT INTO t (a) VALUES (2'']]\<rparr>) = 1"
  by (simp add: run_defs copy_defs)

text \<open>
  C6, amended. For a table with \<open>n > 0\<close> rows and a chunk size \<open>c > 0\<close>: when the
  precheck and the creation of the table raise nothing, no \<^verbatim>\<open>INSERT\<close> raises, and the
  text rendered from each chunk has no semicolon before its closing one, \<^verbatim>\<open>copy\<close>
  returns \<^verbatim>\<open>None\<close>, and the statements it runs after the creation phase are exactly
  one \<^verbatim>\<open>INSERT\<close> per chunk (the text rendered from that chunk, without the closing
  semicolon), in order, each on its own cursor and committed, all on the connection that
  \<^verbatim>\<open>copy\<close> opened: \<open>\<lceil>n / c\<rceil>\<close> statements. Chunk \<open>i\<close> holds the rows \<open>i * c\<close>
  up to \<open>(i + 1) * c\<close> of the table.
\<close>

theorem copy_one_insert_per_chunk:
  assumes "num_rows tbl \<noteq> 0" and "0 < chunk_size"
      and "sqlite3_connect (file' self) w = (c, w0)"
      and "copy_create E self tbl table_name if_exists c w0 = (Inr tbl1, c1, w1)"
      and "copy_inserts E table_name (chunk chunk_size tbl1) c1 w1 = (Inr u, c2, w2)"
      and "\<forall>t \<in> set (chunk chunk_size tbl1).
             CHR '';'' \<notin> set (butlast (projr (insert_statement E t table_name)))"
  shows "copy E self tbl table_name if_exists chunk_size w = (Inr (), connection_close c2 w2)
       \<and> events w2 = events w1
           @ concat (map (\<lambda>t. [Cursor (conn_id c),
                                Execute (conn_id c) (butlast (projr (insert_statement E t table_name))),
                                Commit (conn_id c), CursorClose (conn_id c)])
                         (chunk chunk_size tbl1))
       \<and> executed (events (snd (copy E self tbl table_name if_exists chunk_size w)))
           = executed (events w1)
             @ map (\<lambda>t. (conn_id c, butlast (projr (insert_statement E t table_name))))
                   (chunk chunk_size tbl1)
       \<and> length (executed (events (snd (copy E self tbl table_name if_exists chunk_size w))))
           = length (executed (events w1)) + (num_rows tbl + chunk_size - 1) div chunk_size
       \<and> length (chunk chunk_size tbl1) = (num_rows tbl + chunk_size - 1) div chunk_size
       \<and> (\<forall>i < length (chunk chunk_size tbl1).
             data (chunk chunk_size tbl1 ! i) = take chunk_size (drop (i * chunk_size) (data tbl)))"
proof -
  let ?k = "conn_id c"
  let ?ts = "chunk chunk_size tbl1"
  let ?stmt = "\<lambda>t. butlast (projr (insert_statement E t table_name))"
  from copy_create_conn [OF assms(4)] have cc: "conn_id c1 = ?k" "data tbl1 = data tbl"
    by simp_all
  from assms(4,5) have "copy_body E self tbl table_name if_exists chunk_size c w0 = (Inr u, c2, w2)"
    by (simp add: copy_body_def)
  with assms(1,3) have 1: "copy E self tbl table_name if_exists chunk_size w
                            = (Inr (), connection_close c2 w2)"
    by (simp add: copy_def connection_def)
  have one: "query_events ?k (projr (insert_statement E t table_name))
             = [Cursor ?k, Execute ?k (?stmt t), Commit ?k, CursorClose ?k]"
    if "t \<in> set ?ts" for t
  proof -
    from copy_inserts_rendered [OF assms(5)] that
    obtain sql where sql: "insert_statement E t table_name = Inr sql" by auto
    with assms(6) that have "CHR '';'' \<notin> set (butlast sql)" by auto
    from insert_statement_one_statement [OF sql this] sql show ?thesis
      by (simp add: query_events_def)
  qed
  from copy_inserts_events [OF assms(5)] cc
  have "events w2 = events w1
           @ concat (map (\<lambda>t. query_events ?k (projr (insert_statement E t table_name))) ?ts)"
    by simp
  also have "map (\<lambda>t. query_events ?k (projr (insert_statement E t table_name))) ?ts
             = map (\<lambda>t. [Cursor ?k, Execute ?k (?stmt t), Commit ?k, CursorClose ?k]) ?ts"
    using one by (intro map_cong) auto
  finally have 2: "events w2 = events w1
           @ concat (map (\<lambda>t. [Cursor ?k, Execute ?k (?stmt t), Commit ?k, CursorClose ?k]) ?ts)" .
  from 1 2 have 3: "executed (events (snd (copy E self tbl table_name if_exists chunk_size w)))
           = executed (events w1) @ map (\<lambda>t. (?k, ?stmt t)) ?ts"
    by (simp add: connection_close_def emit_def executed_append executed_one_per_item)
  from assms(2) cc have 5: "length ?ts = (num_rows tbl + chunk_size - 1) div chunk_size"
    by (simp add: chunk_def chunk_rows_length num_rows_def)
  from 3 5 have 4: "length (executed (events (snd (copy E self tbl table_name if_exists chunk_size w))))
           = length (executed (events w1)) + (num_rows tbl + chunk_size - 1) div chunk_size"
    by simp
  from assms(2) cc have 6: "\<forall>i < length ?ts.
             data (?ts ! i) = take chunk_size (drop (i * chunk_size) (data tbl))"
    by (simp add: chunk_def chunk_rows_nth)
  from 1 2 3 4 5 6 show ?thesis by blast
qed

theorem copy_one_insert_per_chunk_witness:
  "fst (copy (scripted_env [(table_exists_sql ''t'', Returns (Some [''name'']) [])]) db
          \<lparr>columns = [''a''], data = [[''1''], [''2''], [''3''], [''4''], [''5'']]\<rparr>
          ''t'' ''fail'' 2 empty_world)
     = Inr ()
   \<and> executed (events (snd (copy (scripted_env [(table_exists_sql ''t'', Returns (Some [''name'']) [])]) db
          \<lparr>columns = [''a''], data = [[''1''], [''2''], [''3''], [''4''], [''5'']]\<rparr>
          ''t'' ''fail'' 2 empty_world)))
     = [(1, table_exists_sql ''t''),
        (0, ''CREATE TABLE t ( '' @ [CHR 0x0A] @ '' a text '' @ [CHR 0x0A] @ '')''),
        (0, ''INSERT INTO t'' @ [CHR 0x0A] @ indent18 @ ''(a)'' @ [CHR 0x0A] @ indent18
            @ ''VALUES (1),(2)''),
        (0, ''INSERT INTO t'' @ [CHR 0x0A] @ indent18 @ ''(a)'' @ [CHR 0x0A] @ indent18
            @ ''VALUES (3),(4)''),
        (0, ''INSERT INTO t'' @ [CHR 0x0A] @ indent18 @ ''(a)'' @ [CHR 0x0A] @ indent18
            @ ''VALUES (5)'')]
   \<and> length (chunk 2 \<lparr>columns = [''a''], data = [[''1''], [''2''], [''3''], [''4''], [''5'']]\<rparr>)
     = 3"
proof -
  let ?E = "scripted_env [(table_exists_sql ''t'', Returns (Some [''name'']) [])]"
  let ?tbl = "\<lparr>columns = [''a''], data = [[''1''], [''2''], [''3''], [''4''], [''5'']]\<rparr>"
  let ?c = "fst (sqlite3_connect (file' db) empty_world) :: string list conn"
  let ?w0 = "snd (sqlite3_connect (file' db) empty_world) :: (string list, string) world"
  let ?cc = "copy_create ?E db ?tbl ''t'' ''fail'' ?c ?w0"
  let ?ci = "copy_inserts ?E ''t'' (chunk 2 ?tbl) (fst (snd ?cc)) (snd (snd ?cc))"
  have n: "num_rows ?tbl \<noteq> 0" by (simp add: num_rows_def)
  have k: "0 < (2::nat)" by simp
  have h3: "sqlite3_connect (file' db) empty_world = (?c, ?w0)" by simp
  have "fst ?cc = Inr ?tbl"
    by (simp add: run_defs copy_defs)
  then have h4: "?cc = (Inr ?tbl, fst (snd ?cc), snd (snd ?cc))"
    by (simp add: prod_eq_iff)
  have "fst ?ci = Inr ()"
    by (simp add: run_defs copy_defs)
  then have h5: "?ci = (Inr (), fst (snd ?ci), snd (snd ?ci))"
    by (simp add: prod_eq_iff)
  have h6: "\<forall>t \<in> set (chunk 2 ?tbl).
              CHR '';'' \<notin> set (butlast (projr (insert_statement ?E t ''t'')))"
    by (simp add: copy_defs scripted_env_def)
  have ev1: "executed (events (snd (snd ?cc)))
     = [(1, table_exists_sql ''t''),
        (0, ''CREATE TABLE t ( '' @ [CHR 0x0A] @ '' a text '' @ [CHR 0x0A] @ '')'')]"
    by (simp add: run_defs copy_defs)
  have id: "conn_id ?c = 0"
    by (simp add: run_defs)
  have st: "map (\<lambda>t. (0::nat, butlast (projr (insert_statement ?E t ''t'')))) (chunk 2 ?tbl)
     = [(0, ''INSERT INTO t'' @ [CHR 0x0A] @ indent18 @ ''(a)'' @ [CHR 0x0A] @ indent18
            @ ''VALUES (1),(2)''),
        (0, ''INSERT INTO t'' @ [CHR 0x0A] @ indent18 @ ''(a)'' @ [CHR 0x0A] @ indent18
            @ ''VALUES (3),(4)''),
        (0, ''INSERT INTO t'' @ [CHR 0x0A] @ indent18 @ ''(a)'' @ [CHR 0x0A] @ indent18
            @ ''VALUES (5)'')]"
    by (simp add: copy_defs scripted_env_def)
  note th = copy_one_insert_per_chunk [OF n k h3 h4 h5 h6]
  from th [THEN conjunct1]
  have a: "fst (copy ?E db ?tbl ''t'' ''fail'' 2 empty_world) = Inr ()"
    by (simp only: fst_conv)
  from th [THEN conjunct2, THEN conjunct2, THEN conjunct1]
  have b: "executed (events (snd (copy ?E db ?tbl ''t'' ''fail'' 2 empty_world)))
           = [(1, table_exists_sql ''t''),
              (0, ''CREATE TABLE t ( '' @ [CHR 0x0A] @ '' a text '' @ [CHR 0x0A] @ '')'')]
             @ [(0, ''INSERT INTO t'' @ [CHR 0x0A] @ indent18 @ ''(a)'' @ [CHR 0x0A] @ indent18
                    @ ''VALUES (1),(2)''),
                (0, ''INSERT INTO t'' @ [CHR 0x0A] @ indent18 @ ''(a)'' @ [CHR 0x0A] @ indent18
                    @ ''VALUES (3),(4)''),
                (0, ''INSERT INTO t'' @ [CHR 0x0A] @ indent18 @ ''(a)'' @ [CHR 0x0A] @ indent18
                    @ ''VALUES (5)'')]"
    by (simp only: ev1 id st)
  from th [THEN conjunct2, THEN conjunct2, THEN conjunct2, THEN conjunct2, THEN conjunct1]
  have c: "length (chunk 2 ?tbl) = 3"
    by (simp add: num_rows_def)
  from a b c show ?thesis
    by (simp only: append_Cons append_Nil simp_thms)
qed

text \<open>
  C10. \<^verbatim>\<open>copy\<close> is not atomic. Once the precheck has passed, the database that
  \<^verbatim>\<open>copy\<close> leaves behind is the one reached by running the \<^verbatim>\<open>CREATE TABLE\<close>
  statement (when the table is created) and the \<^verbatim>\<open>INSERT\<close> statements of the chunks
  one after the other, each durable as soon as it has run, up to the first that raises:
  the rows of the chunks inserted before a failure stay, and neither the rollback nor the
  close of the connection takes anything back. No other database file changes.
\<close>

theorem copy_commits_each_statement:
  assumes "num_rows tbl \<noteq> 0"
      and "sqlite3_connect (file' self) w = (c, w0)"
      and "create_table_precheck E self c table_name if_exists w0 = (Inr needed, c1, w1)"
      and "rectangular (if needed = Some True then snd (create_statement E tbl table_name) else tbl)"
  shows "databases (snd (copy E self tbl table_name if_exists chunk_size w))
         = (databases w1)(file' self :=
             snd (autocommit E (databases w1 (file' self))
                    ((if needed = Some True
                      then statements (fst (create_statement E tbl table_name)) else [])
                     @ concat (map (\<lambda>t. statements (projr (insert_statement E t table_name)))
                                 (chunk chunk_size
                                    (if needed = Some True
                                     then snd (create_statement E tbl table_name) else tbl))))))"
proof -
  let ?f = "file' self"
  let ?tbl1 = "if needed = Some True then snd (create_statement E tbl table_name) else tbl"
  let ?ins = "concat (map (\<lambda>t. statements (projr (insert_statement E t table_name)))
                          (chunk chunk_size ?tbl1))"
  from assms(2) have c: "pending c = None" "conn_file c = ?f"
    by (auto simp: sqlite3_connect_def)
  from create_table_precheck_conn [OF assms(3)] c have c1: "c1 = c" by simp
  from assms(4) have rect: "\<forall>t \<in> set (chunk chunk_size ?tbl1). rectangular t"
    by (rule chunk_rectangular)
  obtain r2 c2 w2 where body:
    "copy_body E self tbl table_name if_exists chunk_size c w0 = (r2, c2, w2)"
    by (cases "copy_body E self tbl table_name if_exists chunk_size c w0") auto
  have "databases w2 = (databases w1)(?f := snd (autocommit E (databases w1 ?f)
          ((if needed = Some True then statements (fst (create_statement E tbl table_name)) else [])
           @ ?ins)))"
  proof (cases "needed = Some True")
    case False
    with body assms(3) c1
    have "copy_inserts E table_name (chunk chunk_size tbl) c w1 = (r2, c2, w2)"
      by (simp add: copy_body_def copy_create_def)
    from copy_inserts_db [OF c(1) _ this] rect False c(2) show ?thesis
      by simp
  next
    case True
    let ?sql = "fst (create_statement E tbl table_name)"
    let ?tbl = "snd (create_statement E tbl table_name)"
    obtain r3 c3 w3 where q: "query_with_connection E ?sql c None True w1 = (r3, c3, w3)"
      by (cases "query_with_connection E ?sql c None True w1") auto
    obtain oe d3 where a: "autocommit E (databases w1 ?f) (statements ?sql) = (oe, d3)"
      by (cases "autocommit E (databases w1 ?f) (statements ?sql)") auto
    from query_with_connection_db [OF c(1) q] a c(2)
    have c3: "c3 = c"
      and d3: "databases w3 = (databases w1)(?f := d3)"
      and f3: "oe = (case r3 of Inl e \<Rightarrow> Some e | Inr t \<Rightarrow> None)"
      by simp_all
    show ?thesis
    proof (cases r3)
      case (Inl e)
      with body assms(3) c1 True q have "w2 = w3"
        by (simp add: copy_body_def copy_create_def case_prod_beta)
      with d3 f3 Inl a True show ?thesis
        by (simp add: autocommit_append)
    next
      case (Inr res)
      let ?w4 = "log INFO (''Table '' @ table_name @ '' created.'') w3"
      from Inr body assms(3) c1 True q c3
      have "copy_inserts E table_name (chunk chunk_size ?tbl) c ?w4 = (r2, c2, w2)"
        by (simp add: copy_body_def copy_create_def case_prod_beta)
      from copy_inserts_db [OF c(1) _ this] rect True c(2) d3 f3 Inr a show ?thesis
        by (auto simp: autocommit_append log_def fun_eq_iff)
    qed
  qed
  moreover from assms(1)
    connection_databases [where body = "copy_body E self tbl table_name if_exists chunk_size",
                          OF assms(2) body]
  have "databases (snd (copy E self tbl table_name if_exists chunk_size w)) = databases w2"
    by (auto simp: copy_def split: prod.splits sum.splits)
  ultimately show ?thesis by simp
qed

theorem copy_commits_each_statement_witness:
  "fst (copy (scripted_env
               [(table_exists_sql ''t'', Returns (Some [''name'']) []),
                (''INSERT INTO t'' @ [CHR 0x0A] @ indent18 @ ''(a)'' @ [CHR 0x0A] @ indent18
                 @ ''VALUES (3)'', Raises (DatabaseError ''database or disk is full''))]) db
          \<lparr>columns = [''a''], data = [[''1''], [''2''], [''3'']]\<rparr> ''t'' ''fail'' 2 empty_world)
     = Inr ()
   \<and> databases (snd (copy (scripted_env
               [(table_exists_sql ''t'', Returns (Some [''name'']) []),
                (''INSERT INTO t'' @ [CHR 0x0A] @ indent18 @ ''(a)'' @ [CHR 0x0A] @ indent18
                 @ ''VALUES (3)'', Raises (DatabaseError ''database or disk is full''))]) db
          \<lparr>columns = [''a''], data = [[''1''], [''2''], [''3'']]\<rparr> ''t'' ''fail'' 2 empty_world))
        (Named ''parsons.db'')
     = [table_exists_sql ''t'',
        ''CREATE TABLE t ( '' @ [CHR 0x0A] @ '' a text '' @ [CHR 0x0A] @ '')'',
        ''INSERT INTO t'' @ [CHR 0x0A] @ indent18 @ ''(a)'' @ [CHR 0x0A] @ indent18
        @ ''VALUES (1),(2)'']"
proof -
  let ?E = "scripted_env
               [(table_exists_sql ''t'', Returns (Some [''name'']) []),
                (''INSERT INTO t'' @ [CHR 0x0A] @ indent18 @ ''(a)'' @ [CHR 0x0A] @ indent18
                 @ ''VALUES (3)'', Raises (DatabaseError ''database or disk is full''))]"
  let ?tbl = "\<lparr>columns = [''a''], data = [[''1''], [''2''], [''3'']]\<rparr>"
  let ?c = "fst (sqlite3_connect (file' db) empty_world) :: string list conn"
  let ?w0 = "snd (sqlite3_connect (file' db) empty_world) :: (string list, string) world"
  let ?p = "create_table_precheck ?E db ?c ''t'' ''fail'' ?w0"
  have n: "num_rows ?tbl \<noteq> 0" by (simp add: num_rows_def)
  have h2: "sqlite3_connect (file' db) empty_world = (?c, ?w0)" by simp
  have "fst ?p = Inr (Some True)"
    by (simp add: run_defs copy_defs)
  then have h3: "?p = (Inr (Some True), fst (snd ?p), snd (snd ?p))"
    by (simp add: prod_eq_iff)
  have h4: "rectangular (if Some True = Some True
                         then snd (create_statement ?E ?tbl ''t'') else ?tbl)"
    by (simp add: rectangular_def copy_defs scripted_env_def)
  have d1: "databases (snd (snd ?p)) (Named ''parsons.db'') = [table_exists_sql ''t'']"
    by (simp add: run_defs copy_defs)
  have r: "fst (copy ?E db ?tbl ''t'' ''fail'' 2 empty_world) = Inr ()"
    by (simp add: run_defs copy_defs)
  from copy_commits_each_statement [OF n h2 h3 h4, of 2]
  show ?thesis
    using r d1
    by (simp add: copy_defs statements_def py_strip_def is_space_def scripted_env_def
          scripted_engine_def db_def)
qed

end
